theory Spec2Isabelle
  imports Complex_Main
begin

section \<open>Configuration constants (monitor.js, section 1)\<close>

definition CHECK_HOUR_START :: int where "CHECK_HOUR_START = 10"
definition CHECK_HOUR_END :: int where "CHECK_HOUR_END = 15"
definition URGENT_ALERT_DELAY_MINUTES :: int where "URGENT_ALERT_DELAY_MINUTES = 15"
definition MILESTONE_STEP_KWH :: real where "MILESTONE_STEP_KWH = 1000"
definition LIVENESS_CHECK_HOURS :: int where "LIVENESS_CHECK_HOURS = 2"
definition DEFAULT_LANGUAGE :: string where "DEFAULT_LANGUAGE = ''en''"
definition DEFAULT_COST_PER_KWH :: real where "DEFAULT_COST_PER_KWH = 32 / 100"
definition DEFAULT_CURRENCY_SYMBOL :: string where "DEFAULT_CURRENCY_SYMBOL = ''TND''"
definition DEFAULT_CLEANING_WEEKS :: int where "DEFAULT_CLEANING_WEEKS = 4"
definition DEFAULT_TEMP_THRESHOLD_C :: real where "DEFAULT_TEMP_THRESHOLD_C = 60"

section \<open>Time\<close>

text \<open>
  A calendar day of the local time zone, as \<open>format(d, 'yyyy-MM-dd')\<close> prints a JavaScript
  \<open>Date\<close>: months are numbered from 1, days of the month from 1.
\<close>

record caldate =
  year :: int
  month :: nat
  dayOfMonth :: nat

text \<open>
  One reading of the clock, \<open>new Date()\<close>: the fields the program reads from it. Instants are
  milliseconds since the epoch, as \<open>Date.now()\<close> and \<open>getTime()\<close> give them; the program's
  timestamps are such instants (a \<open>Date\<close> that is no instant, \<open>Invalid Date\<close>, is
  \<open>None\<close> where the program can meet one).
\<close>

record jsDate =
  getTime :: int
  getHours :: int
  localDay :: caldate

text \<open>
  date-fns: the difference of two instants in whole minutes and whole hours, the quotient
  rounded towards zero (\<open>Math.trunc\<close>).
\<close>

definition trunc_quot :: "int \<Rightarrow> int \<Rightarrow> int" where
  "trunc_quot a b = (if 0 \<le> a then a div b else - ((- a) div b))"

definition differenceInMinutes :: "int \<Rightarrow> int \<Rightarrow> int" where
  "differenceInMinutes dateLeft dateRight = trunc_quot (dateLeft - dateRight) 60000"

definition differenceInHours :: "int \<Rightarrow> int \<Rightarrow> int" where
  "differenceInHours dateLeft dateRight = trunc_quot (dateLeft - dateRight) 3600000"

section \<open>The persisted state (\<open>let state = loadState()\<close>)\<close>

record config =
  language :: string
  costPerKwh :: real
  currencySymbol :: string
  cleaningIntervalWeeks :: int
  tempThreshold :: real

record bestDay =
  date :: "caldate option"
  kwh :: real

record stats =
  lastReminderDate :: int
  nextMilestoneKwh :: real
  bestDay :: bestDay
  lastLivenessAlert :: "int option"
  lastTempAlert :: "int option"

record status =
  isSystemDown :: bool
  outageStartTime :: "int option"
  urgentAlertSent :: bool

record state =
  config :: config
  stats :: stats
  status :: status

text \<open>
  The file \<open>bot_state.json\<close> as \<open>JSON.parse\<close> reads it: each of the three objects and each
  of their properties may be missing (a property that is missing or \<open>null\<close> is \<open>None\<close>).
\<close>

record savedConfig =
  saved_language :: "string option"
  saved_costPerKwh :: "real option"
  saved_currencySymbol :: "string option"
  saved_cleaningIntervalWeeks :: "int option"
  saved_tempThreshold :: "real option"

record savedStats =
  saved_lastReminderDate :: "int option"
  saved_nextMilestoneKwh :: "real option"
  saved_bestDay :: "bestDay option"
  saved_lastLivenessAlert :: "int option"
  saved_lastTempAlert :: "int option"

record savedStatus =
  saved_isSystemDown :: "bool option"
  saved_outageStartTime :: "int option"
  saved_urgentAlertSent :: "bool option"

record savedState =
  saved_config :: "savedConfig option"
  saved_stats :: "savedStats option"
  saved_status :: "savedStatus option"

text \<open>\<open>{...{key: default}, ...loaded}\<close> at one key: the loaded value when there is one.\<close>

definition orDefault :: "'a \<Rightarrow> 'a option \<Rightarrow> 'a" where
  "orDefault dflt loaded = (case loaded of None \<Rightarrow> dflt | Some v \<Rightarrow> v)"

definition defaultConfig :: config where
  "defaultConfig = \<lparr>language = DEFAULT_LANGUAGE, costPerKwh = DEFAULT_COST_PER_KWH,
     currencySymbol = DEFAULT_CURRENCY_SYMBOL, cleaningIntervalWeeks = DEFAULT_CLEANING_WEEKS,
     tempThreshold = DEFAULT_TEMP_THRESHOLD_C\<rparr>"

definition defaultStats :: stats where
  "defaultStats = \<lparr>lastReminderDate = 0, nextMilestoneKwh = MILESTONE_STEP_KWH,
     bestDay = \<lparr>date = None, kwh = 0\<rparr>, lastLivenessAlert = None, lastTempAlert = None\<rparr>"

definition defaultStatus :: status where
  "defaultStatus = \<lparr>isSystemDown = False, outageStartTime = None, urgentAlertSent = False\<rparr>"

text \<open>
  \<open>loadState\<close> (monitor.js 57-79): \<open>None\<close> is a file that is missing or does not parse, which
  gives the defaults of lines 73-77.
\<close>

definition loadState :: "savedState option \<Rightarrow> state" where
  "loadState rawData =
     (case rawData of
        None \<Rightarrow> \<lparr>config = defaultConfig, stats = defaultStats, status = defaultStatus\<rparr>
      | Some loadedState \<Rightarrow>
          \<lparr>config =
             (case saved_config loadedState of
                None \<Rightarrow> defaultConfig
              | Some c \<Rightarrow>
                  \<lparr>language = orDefault DEFAULT_LANGUAGE (saved_language c),
                   costPerKwh = orDefault DEFAULT_COST_PER_KWH (saved_costPerKwh c),
                   currencySymbol = orDefault DEFAULT_CURRENCY_SYMBOL (saved_currencySymbol c),
                   cleaningIntervalWeeks =
                     orDefault DEFAULT_CLEANING_WEEKS (saved_cleaningIntervalWeeks c),
                   tempThreshold = orDefault DEFAULT_TEMP_THRESHOLD_C (saved_tempThreshold c)\<rparr>),
           stats =
             (case saved_stats loadedState of
                None \<Rightarrow> defaultStats
              | Some t \<Rightarrow>
                  \<lparr>lastReminderDate = orDefault 0 (saved_lastReminderDate t),
                   nextMilestoneKwh = orDefault MILESTONE_STEP_KWH (saved_nextMilestoneKwh t),
                   bestDay = orDefault \<lparr>date = None, kwh = 0\<rparr> (saved_bestDay t),
                   lastLivenessAlert = saved_lastLivenessAlert t,
                   lastTempAlert = saved_lastTempAlert t\<rparr>),
           status =
             (case saved_status loadedState of
                None \<Rightarrow> defaultStatus
              | Some u \<Rightarrow>
                  \<lparr>isSystemDown = orDefault False (saved_isSystemDown u),
                   outageStartTime = saved_outageStartTime u,
                   urgentAlertSent = orDefault False (saved_urgentAlertSent u)\<rparr>)\<rparr>)"

text \<open>
  The messages \<open>formatMarkdown(t(KEY, null, {variables}))\<close> sends to the chat group: one
  constructor for each translation key the scheduled tasks use, with the variables of the
  message.
\<close>

datatype alert =
    URGENT_ALERT_MESSAGE int
  | OUTAGE_MESSAGE
  | RECOVERY_MESSAGE real
  | TEMP_ALERT real real
  | LIVENESS_ALERT int
  | BEST_DAY_MESSAGE real real
  | MILESTONE_MESSAGE real
  | CLEANING_REMINDER int

section \<open>The per-minute escalation check\<close>

text \<open>
  \<open>checkUrgentConditions\<close> (monitor.js 463-471), run by cron every minute. \<open>now\<close> is the
  reading \<open>new Date()\<close> of line 465; the result is the state after the call and the messages
  sent. The guard of line 464 is the \<open>None\<close> case together with the first \<open>if\<close>. \<open>saveState\<close>
  writes the state to the file and changes nothing in memory.
\<close>

definition checkUrgentConditions :: "jsDate \<Rightarrow> state \<Rightarrow> state \<times> alert list" where
  "checkUrgentConditions now s =
     (case outageStartTime (status s) of
        None \<Rightarrow> (s, [])
      | Some startTime \<Rightarrow>
          if \<not> isSystemDown (status s) \<or> urgentAlertSent (status s) then (s, [])
          else
            let minutesSinceOutage = differenceInMinutes (getTime now) startTime in
            if minutesSinceOutage \<ge> URGENT_ALERT_DELAY_MINUTES
            then (s\<lparr>status := (status s)\<lparr>urgentAlertSent := True\<rparr>\<rparr>,
                  [URGENT_ALERT_MESSAGE URGENT_ALERT_DELAY_MINUTES])
            else (s, []))"

section \<open>Telemetry snapshots\<close>

text \<open>
  What \<open>growatt.getAllPlantData\<close> returns: an object of plants by plant id, each with its
  devices by serial number. An object is the list of its entries in the order of
  \<open>Object.keys\<close>; a property that may be missing is an \<open>option\<close>. \<open>historyLast\<close> holds JSON
  numbers (\<open>None\<close>: the property is missing); \<open>eToday\<close> and \<open>eTotal\<close> are the values
  \<open>parseFloat\<close> reads from the vendor's strings (\<open>None\<close>: \<open>NaN\<close>), \<open>lastUpdateTime\<close> the
  instant \<open>new Date\<close> reads (\<open>None\<close>: \<open>Invalid Date\<close>).
\<close>

record historyLast =
  pac :: "real option"
  temperature :: "real option"
  eacToday :: "real option"

record deviceData =
  eToday :: "real option"
  lastUpdateTime :: "int option"

record device =
  historyLast :: "historyLast option"
  deviceData :: "deviceData option"

record plantData =
  eTotal :: "real option"

record plant =
  devices :: "(string \<times> device) list option"
  plantData :: "plantData option"

type_synonym snapshot = "(string \<times> plant) list"

datatype error = ConnectivityError | TypeError

text \<open>\<open>obj[Object.keys(obj)[0]]\<close>: the value of the first key, \<open>undefined\<close> without keys.\<close>

definition firstValue :: "(string \<times> 'a) list \<Rightarrow> 'a option" where
  "firstValue obj = (case obj of [] \<Rightarrow> None | (k, v) # rest \<Rightarrow> Some v)"

text \<open>
  \<open>plant.devices[Object.keys(plant.devices)[0]]\<close>: \<open>Object.keys(undefined)\<close> throws a
  TypeError when the plant has no \<open>devices\<close> property.
\<close>

definition firstDevice :: "plant \<Rightarrow> error + device option" where
  "firstDevice p = (case devices p of None \<Rightarrow> Inl TypeError | Some ds \<Rightarrow> Inr (firstValue ds))"

section \<open>The telemetry cache (\<open>getGrowattData\<close>)\<close>

record apiCache =
  cached :: "snapshot option"
  timestamp :: int

text \<open>
  The program's variables: \<open>state\<close> and \<open>apiCache\<close>, and as the trace of its network effect
  the days it has queried the vendor for, oldest first.
\<close>

record world =
  state :: state
  apiCache :: apiCache
  apiCalls :: "caldate list"

text \<open>
  \<open>getGrowattData\<close> (monitor.js 83-101). The vendor is \<open>api\<close>: the day queried to the
  snapshot, \<open>None\<close> when login, query or logout throws. \<open>d\<close> is the calendar day of the
  \<open>Date\<close> argument, the only part of it the function and the vendor's query use. The clock
  is read once, as \<open>now\<close>.
\<close>

definition liveFetch :: "(caldate \<Rightarrow> snapshot option) \<Rightarrow> jsDate \<Rightarrow> bool \<Rightarrow> caldate \<Rightarrow> world
    \<Rightarrow> (error + snapshot) \<times> world" where
  "liveFetch api now isToday d w =
     (let w1 = w\<lparr>apiCalls := apiCalls w @ [d]\<rparr> in
      case api d of
        None \<Rightarrow> (Inl ConnectivityError, w1)
      | Some allPlantData \<Rightarrow>
          (Inr allPlantData,
           if isToday
           then w1\<lparr>apiCache := \<lparr>cached = Some allPlantData, timestamp = getTime now\<rparr>\<rparr>
           else w1))"

definition getGrowattData :: "(caldate \<Rightarrow> snapshot option) \<Rightarrow> jsDate \<Rightarrow> bool \<Rightarrow> caldate \<Rightarrow> world
    \<Rightarrow> (error + snapshot) \<times> world" where
  "getGrowattData api now forceNew d w =
     (let isToday = (d = localDay now) in
      case cached (apiCache w) of
        None \<Rightarrow> liveFetch api now isToday d w
      | Some snap \<Rightarrow>
          if \<not> forceNew \<and> isToday \<and> getTime now - timestamp (apiCache w) < 120000
          then (Inr snap, w)
          else liveFetch api now isToday d w)"

section \<open>The hourly checks\<close>

text \<open>The four \<open>if\<close> statements of \<open>runHourlyChecks\<close> (monitor.js 441-459), in their order.\<close>

definition livenessCheck :: "jsDate \<Rightarrow> int option \<Rightarrow> state \<Rightarrow> state \<times> alert list" where
  "livenessCheck now hoursSinceUpdate s =
     (case hoursSinceUpdate of
        None \<Rightarrow> (s, [])
      | Some h \<Rightarrow>
          if h \<ge> LIVENESS_CHECK_HOURS \<and>
             (case lastLivenessAlert (stats s) of
                None \<Rightarrow> True
              | Some l \<Rightarrow> differenceInHours (getTime now) l \<ge> 6)
          then (s\<lparr>stats := (stats s)\<lparr>lastLivenessAlert := Some (getTime now)\<rparr>\<rparr>,
                [LIVENESS_ALERT h])
          else (s, []))"

definition tempCheck :: "jsDate \<Rightarrow> real option \<Rightarrow> state \<Rightarrow> state \<times> alert list" where
  "tempCheck now temp s =
     (case temp of
        None \<Rightarrow> (s, [])
      | Some c \<Rightarrow>
          if c \<ge> tempThreshold (config s) \<and>
             (case lastTempAlert (stats s) of
                None \<Rightarrow> True
              | Some l \<Rightarrow> differenceInHours (getTime now) l \<ge> 6)
          then (s\<lparr>stats := (stats s)\<lparr>lastTempAlert := Some (getTime now)\<rparr>\<rparr>,
                [TEMP_ALERT c (tempThreshold (config s))])
          else (s, []))"

definition outageCheck :: "jsDate \<Rightarrow> real option \<Rightarrow> state \<Rightarrow> state \<times> alert list" where
  "outageCheck now watts s =
     (case watts of
        None \<Rightarrow> (s, [])
      | Some p \<Rightarrow>
          if p > 0 \<and> isSystemDown (status s)
          then (s\<lparr>status := (status s)\<lparr>isSystemDown := False, outageStartTime := None,
                                        urgentAlertSent := False\<rparr>\<rparr>,
                [RECOVERY_MESSAGE p])
          else if p = 0 \<and> \<not> isSystemDown (status s)
          then (s\<lparr>status := (status s)\<lparr>isSystemDown := True,
                                        outageStartTime := Some (getTime now)\<rparr>\<rparr>,
                [OUTAGE_MESSAGE])
          else (s, []))"

text \<open>
  The readings of lines 434-439. A missing plant, \<open>devices\<close>, device, \<open>historyLast\<close> or
  \<open>deviceData\<close> throws a TypeError, which the \<open>catch\<close> of line 460 logs.
\<close>

definition hourlyReadings :: "snapshot \<Rightarrow> error + (real option \<times> real option \<times> int option)" where
  "hourlyReadings snap =
     (case firstValue snap of
        None \<Rightarrow> Inl TypeError
      | Some p \<Rightarrow>
          (case firstDevice p of
             Inl e \<Rightarrow> Inl e
           | Inr None \<Rightarrow> Inl TypeError
           | Inr (Some dev) \<Rightarrow>
               (case historyLast dev of
                  None \<Rightarrow> Inl TypeError
                | Some h \<Rightarrow>
                    (case deviceData dev of
                       None \<Rightarrow> Inl TypeError
                     | Some dd \<Rightarrow> Inr (pac h, temperature h, lastUpdateTime dd)))))"

text \<open>
  \<open>runHourlyChecks\<close> (monitor.js 420-461), run by cron at minute 5 of every hour. \<open>now\<close> is
  the clock at the tick; the state is read and written after the awaited fetch only.
\<close>

definition runHourlyChecks :: "(caldate \<Rightarrow> snapshot option) \<Rightarrow> jsDate \<Rightarrow> world \<Rightarrow> world \<times> alert list" where
  "runHourlyChecks api now w =
     (let currentHour = getHours now in
      if currentHour < CHECK_HOUR_START \<or> currentHour > CHECK_HOUR_END then
        (if isSystemDown (status (state w))
         then (w\<lparr>state := (state w)\<lparr>status := (status (state w))\<lparr>isSystemDown := False,
                  outageStartTime := None, urgentAlertSent := False\<rparr>\<rparr>\<rparr>, [])
         else (w, []))
      else
        (case getGrowattData api now True (localDay now) w of
           (Inl e, w1) \<Rightarrow> (w1, [])
         | (Inr snap, w1) \<Rightarrow>
             (case hourlyReadings snap of
                Inl e \<Rightarrow> (w1, [])
              | Inr (watts, temp, lastUpdate) \<Rightarrow>
                  let hoursSinceUpdate = map_option (differenceInHours (getTime now)) lastUpdate;
                      (s1, a1) = livenessCheck now hoursSinceUpdate (state w1);
                      (s2, a2) = tempCheck now temp s1;
                      (s3, a3) = outageCheck now watts s2
                  in (w1\<lparr>state := s3\<rparr>, a1 @ a2 @ a3))))"

section \<open>The daily evening checks\<close>

text \<open>The three \<open>if\<close> statements of \<open>runDailyEveningChecks\<close> (monitor.js 373-384).\<close>

definition bestDayCheck :: "jsDate \<Rightarrow> real option \<Rightarrow> state \<Rightarrow> state \<times> alert list" where
  "bestDayCheck now today s =
     (case today of
        None \<Rightarrow> (s, [])
      | Some e \<Rightarrow>
          if e > kwh (bestDay (stats s))
          then (s\<lparr>stats := (stats s)\<lparr>bestDay := \<lparr>date = Some (localDay now), kwh = e\<rparr>\<rparr>\<rparr>,
                [BEST_DAY_MESSAGE e (kwh (bestDay (stats s)))])
          else (s, []))"

definition milestoneCheck :: "real option \<Rightarrow> state \<Rightarrow> state \<times> alert list" where
  "milestoneCheck lifetime s =
     (case lifetime of
        None \<Rightarrow> (s, [])
      | Some e \<Rightarrow>
          if e \<ge> nextMilestoneKwh (stats s)
          then (s\<lparr>stats := (stats s)\<lparr>nextMilestoneKwh :=
                    of_int \<lfloor>e / MILESTONE_STEP_KWH\<rfloor> * MILESTONE_STEP_KWH + MILESTONE_STEP_KWH\<rparr>\<rparr>,
                [MILESTONE_MESSAGE (nextMilestoneKwh (stats s))])
          else (s, []))"

text \<open>
  \<open>differenceInDays\<close> of date-fns counts whole days by the local calendar; it is a parameter
  here.
\<close>

definition cleaningCheck :: "(int \<Rightarrow> int \<Rightarrow> int) \<Rightarrow> jsDate \<Rightarrow> state \<Rightarrow> state \<times> alert list" where
  "cleaningCheck differenceInDays now s =
     (if differenceInDays (getTime now) (lastReminderDate (stats s))
           \<ge> cleaningIntervalWeeks (config s) * 7
      then (s\<lparr>stats := (stats s)\<lparr>lastReminderDate := getTime now\<rparr>\<rparr>,
            [CLEANING_REMINDER (cleaningIntervalWeeks (config s))])
      else (s, []))"

text \<open>The readings of lines 368-371, with the TypeErrors of missing properties.\<close>

definition dailyReadings :: "snapshot \<Rightarrow> error + (real option \<times> real option)" where
  "dailyReadings snap =
     (case firstValue snap of
        None \<Rightarrow> Inl TypeError
      | Some p \<Rightarrow>
          (case firstDevice p of
             Inl e \<Rightarrow> Inl e
           | Inr None \<Rightarrow> Inl TypeError
           | Inr (Some dev) \<Rightarrow>
               (case deviceData dev of
                  None \<Rightarrow> Inl TypeError
                | Some dd \<Rightarrow>
                    (case plantData p of
                       None \<Rightarrow> Inl TypeError
                     | Some pd \<Rightarrow> Inr (eToday dd, eTotal pd)))))"

text \<open>\<open>runDailyEveningChecks\<close> (monitor.js 364-387), run by cron at 19:59.\<close>

definition runDailyEveningChecks :: "(caldate \<Rightarrow> snapshot option) \<Rightarrow> (int \<Rightarrow> int \<Rightarrow> int) \<Rightarrow> jsDate
    \<Rightarrow> world \<Rightarrow> world \<times> alert list" where
  "runDailyEveningChecks api differenceInDays now w =
     (case getGrowattData api now True (localDay now) w of
        (Inl e, w1) \<Rightarrow> (w1, [])
      | (Inr snap, w1) \<Rightarrow>
          (case dailyReadings snap of
             Inl e \<Rightarrow> (w1, [])
           | Inr (today, lifetime) \<Rightarrow>
               let (s1, a1) = bestDayCheck now today (state w1);
                   (s2, a2) = milestoneCheck lifetime s1;
                   (s3, a3) = cleaningCheck differenceInDays now s2
               in (w1\<lparr>state := s3\<rparr>, a1 @ a2 @ a3)))"

section \<open>The scheduled tasks as events\<close>

text \<open>
  The cron entries of lines 358-362 that write \<open>state\<close>, each with the clock and the vendor
  it meets: every firing runs to its end on the one thread.
\<close>

datatype event =
    EveryMinute jsDate
  | Hourly "caldate \<Rightarrow> snapshot option" jsDate
  | DailyEvening "caldate \<Rightarrow> snapshot option" "int \<Rightarrow> int \<Rightarrow> int" jsDate

fun clockOf :: "event \<Rightarrow> jsDate" where
  "clockOf (EveryMinute now) = now"
| "clockOf (Hourly api now) = now"
| "clockOf (DailyEvening api differenceInDays now) = now"

fun step :: "event \<Rightarrow> world \<Rightarrow> world \<times> alert list" where
  "step (EveryMinute now) w =
     (case checkUrgentConditions now (state w) of (s, out) \<Rightarrow> (w\<lparr>state := s\<rparr>, out))"
| "step (Hourly api now) w = runHourlyChecks api now w"
| "step (DailyEvening api differenceInDays now) w =
     runDailyEveningChecks api differenceInDays now w"

section \<open>The program at start, the status invariant, sample inputs\<close>

text \<open>Lines 33-34: \<open>let state = loadState(); let apiCache = { data: null, timestamp: 0 }\<close>.\<close>

definition initialWorld :: "savedState option \<Rightarrow> world" where
  "initialWorld rawData =
     \<lparr>state = loadState rawData, apiCache = \<lparr>cached = None, timestamp = 0\<rparr>, apiCalls = []\<rparr>"

text \<open>
  The invariant of the outage status. The moment \<open>urgentAlertSent\<close> was set is no variable
  of the program: \<open>urgentSetAt\<close> records it beside the state, as the clock of the event that
  turned the flag on.
\<close>

definition statusInvariant :: "status \<Rightarrow> int option \<Rightarrow> bool" where
  "statusInvariant st urgentSetAt \<longleftrightarrow>
     ((outageStartTime st \<noteq> None) = isSystemDown st) \<and>
     (urgentAlertSent st \<longrightarrow>
        isSystemDown st \<and>
        (\<exists>t u. outageStartTime st = Some t \<and> urgentSetAt = Some u \<and> 15 * 60000 \<le> u - t))"

definition urgentSetAt :: "event \<Rightarrow> world \<Rightarrow> int option \<Rightarrow> int option" where
  "urgentSetAt e w u =
     (if \<not> urgentAlertSent (status (state w)) \<and> urgentAlertSent (status (state (fst (step e w))))
      then Some (getTime (clockOf e)) else u)"

text \<open>Sample inputs: a clock at midday, and the program during an outage.\<close>

definition noon :: "int \<Rightarrow> jsDate" where
  "noon ms = \<lparr>getTime = ms, getHours = 12, localDay = \<lparr>year = 2024, month = 6, dayOfMonth = 15\<rparr>\<rparr>"

definition downSince :: "int \<Rightarrow> bool \<Rightarrow> world" where
  "downSince t sent = (initialWorld None)\<lparr>state := (loadState None)\<lparr>status :=
      \<lparr>isSystemDown = True, outageStartTime = Some t, urgentAlertSent = sent\<rparr>\<rparr>\<rparr>"

definition evening :: "int \<Rightarrow> jsDate" where
  "evening ms = \<lparr>getTime = ms, getHours = 20, localDay = \<lparr>year = 2024, month = 6, dayOfMonth = 15\<rparr>\<rparr>"

definition sampleSnapshot :: "real \<Rightarrow> real \<Rightarrow> int \<Rightarrow> real \<Rightarrow> snapshot" where
  "sampleSnapshot watts celsius updated lifetime =
     [(''plant1'', \<lparr>devices = Some [(''inverter1'',
         \<lparr>historyLast = Some \<lparr>pac = Some watts, temperature = Some celsius, eacToday = Some 12\<rparr>,
          deviceData = Some \<lparr>eToday = Some 12, lastUpdateTime = Some updated\<rparr>\<rparr>)],
        plantData = Some \<lparr>eTotal = Some lifetime\<rparr>\<rparr>)]"

text \<open>A state file that records an outage and no start time.\<close>

definition downWithoutStart :: savedState where
  "downWithoutStart = \<lparr>saved_config = None, saved_stats = None, saved_status =
     Some \<lparr>saved_isSystemDown = Some True, saved_outageStartTime = None,
           saved_urgentAlertSent = None\<rparr>\<rparr>"

text \<open>A run of scheduled tasks, and the thresholds of the milestone messages in an output.\<close>

fun run :: "event list \<Rightarrow> world \<Rightarrow> world \<times> alert list" where
  "run [] w = (w, [])"
| "run (e # es) w =
     (case step e w of (w1, out) \<Rightarrow> (case run es w1 of (w2, rest) \<Rightarrow> (w2, out @ rest)))"

fun milestones :: "alert list \<Rightarrow> real list" where
  "milestones [] = []"
| "milestones (MILESTONE_MESSAGE m # out) = m # milestones out"
| "milestones (other # out) = milestones out"

text \<open>The temperature and the liveness messages of an output.\<close>

fun isTempAlert :: "alert \<Rightarrow> bool" where
  "isTempAlert (TEMP_ALERT c threshold) = True"
| "isTempAlert other = False"

fun isLivenessAlert :: "alert \<Rightarrow> bool" where
  "isLivenessAlert (LIVENESS_ALERT h) = True"
| "isLivenessAlert other = False"

text \<open>
  More sample inputs: a cache filled at an instant, whole days as \<open>differenceInDays\<close> counts
  them away from a change of the clock, and an hourly tick at midday with a given temperature.
\<close>

definition cachedAt :: "int \<Rightarrow> snapshot \<Rightarrow> world" where
  "cachedAt t snap = (initialWorld None)\<lparr>apiCache := \<lparr>cached = Some snap, timestamp = t\<rparr>\<rparr>"

definition wholeDays :: "int \<Rightarrow> int \<Rightarrow> int" where
  "wholeDays dateLeft dateRight = trunc_quot (dateLeft - dateRight) 86400000"

definition hotTick :: "int \<Rightarrow> real \<Rightarrow> world \<Rightarrow> world \<times> alert list" where
  "hotTick ms celsius w = runHourlyChecks (\<lambda>d. Some (sampleSnapshot 1500 celsius 0 950)) (noon ms) w"

section \<open>The calendar (date-fns)\<close>

text \<open>
  The functions of the date-fns library that \<open>getPeriodTotal\<close> calls, on calendar days of the
  proleptic Gregorian calendar. A JavaScript \<open>Date\<close> always denotes a day that exists:
  \<open>validDate\<close>.
\<close>

definition isLeapYear :: "int \<Rightarrow> bool" where
  "isLeapYear y \<longleftrightarrow> (y mod 4 = 0 \<and> y mod 100 \<noteq> 0) \<or> y mod 400 = 0"

definition getDaysInMonth :: "int \<Rightarrow> nat \<Rightarrow> nat" where
  "getDaysInMonth y m =
     (if m = 2 then (if isLeapYear y then 29 else 28)
      else if m = 4 \<or> m = 6 \<or> m = 9 \<or> m = 11 then 30
      else 31)"

definition validDate :: "caldate \<Rightarrow> bool" where
  "validDate d \<longleftrightarrow> 1 \<le> month d \<and> month d \<le> 12 \<and>
     1 \<le> dayOfMonth d \<and> dayOfMonth d \<le> getDaysInMonth (year d) (month d)"

text \<open>\<open>setDate(getDate() + 1)\<close> and \<open>setDate(getDate() - 1)\<close>, which roll over months and years.\<close>

definition nextDay :: "caldate \<Rightarrow> caldate" where
  "nextDay d =
     (if dayOfMonth d < getDaysInMonth (year d) (month d) then d\<lparr>dayOfMonth := dayOfMonth d + 1\<rparr>
      else if month d < 12 then d\<lparr>month := month d + 1, dayOfMonth := 1\<rparr>
      else \<lparr>year = year d + 1, month = 1, dayOfMonth = 1\<rparr>)"

definition prevDay :: "caldate \<Rightarrow> caldate" where
  "prevDay d =
     (if 1 < dayOfMonth d then d\<lparr>dayOfMonth := dayOfMonth d - 1\<rparr>
      else if 1 < month d
        then d\<lparr>month := month d - 1, dayOfMonth := getDaysInMonth (year d) (month d - 1)\<rparr>
      else \<lparr>year = year d - 1, month = 12, dayOfMonth = 31\<rparr>)"

definition addDays :: "caldate \<Rightarrow> int \<Rightarrow> caldate" where
  "addDays d amount =
     (if 0 \<le> amount then (nextDay ^^ nat amount) d else (prevDay ^^ nat (- amount)) d)"

text \<open>
  The number of a day, counted from 1 January of year 1 as day 1 (a Monday): what
  \<open>getTime()\<close> orders days by, and what \<open>getDay()\<close> takes the weekday from (0 is Sunday).
\<close>

definition daysBeforeYear :: "int \<Rightarrow> int" where
  "daysBeforeYear y = 365 * (y - 1) + (y - 1) div 4 - (y - 1) div 100 + (y - 1) div 400"

definition daysBeforeMonth :: "int \<Rightarrow> nat \<Rightarrow> nat" where
  "daysBeforeMonth y m = sum_list (map (getDaysInMonth y) [1..<m])"

definition dayNumber :: "caldate \<Rightarrow> int" where
  "dayNumber d = daysBeforeYear (year d) + int (daysBeforeMonth (year d) (month d)) + int (dayOfMonth d)"

definition getDay :: "caldate \<Rightarrow> int" where
  "getDay d = dayNumber d mod 7"

lemma daysBeforeMonth_Suc:
  "1 \<le> m \<Longrightarrow> daysBeforeMonth y (Suc m) = daysBeforeMonth y m + getDaysInMonth y m"
  by (simp add: daysBeforeMonth_def)

lemma daysBeforeMonth_1: "daysBeforeMonth y (Suc 0) = 0"
  by (simp add: daysBeforeMonth_def)

lemma days_in_year:
  "daysBeforeMonth y 12 = (if isLeapYear y then 335 else 334)"
proof -
  have "[1..<12] = [1,2,3,4,5,6,7,8,9,10,11::nat]" by (simp add: upt_rec)
  then show ?thesis by (simp add: daysBeforeMonth_def getDaysInMonth_def)
qed

lemma div_step:
  fixes y k :: int
  assumes "0 < k"
  shows "y div k = (y - 1) div k + (if y mod k = 0 then 1 else 0)"
proof -
  define q where "q = (y - 1) div k"
  define r where "r = (y - 1) mod k"
  have r: "0 \<le> r" "r < k" using assms by (simp_all add: r_def)
  have y: "y = k * q + (r + 1)" by (simp add: q_def r_def)
  show ?thesis
  proof (cases "r + 1 = k")
    case True
    then have "y = k * (q + 1) + 0" using y by (simp add: algebra_simps)
    then have "y div k = q + 1" "y mod k = 0" using assms
      by (metis int_div_pos_eq order_refl, metis int_mod_pos_eq order_refl)
    then show ?thesis by (simp add: q_def)
  next
    case False
    then have "r + 1 < k" using r by simp
    with y r have "y div k = q" "y mod k = r + 1"
      by (metis int_div_pos_eq add_nonneg_nonneg zero_le_one, metis int_mod_pos_eq add_nonneg_nonneg zero_le_one)
    then show ?thesis using r by (simp add: q_def)
  qed
qed

lemma mod_100_4:
  fixes y :: int
  assumes "y mod 100 = 0"
  shows "y mod 4 = 0"
proof -
  have "(100::int) dvd y" using assms by (simp add: mod_eq_0_iff_dvd)
  moreover have "(4::int) dvd 100" by simp
  ultimately have "4 dvd y" using dvd_trans by blast
  then show ?thesis by (simp add: mod_eq_0_iff_dvd)
qed

lemma mod_400_100:
  fixes y :: int
  assumes "y mod 400 = 0"
  shows "y mod 100 = 0"
proof -
  have "(400::int) dvd y" using assms by (simp add: mod_eq_0_iff_dvd)
  moreover have "(100::int) dvd 400" by simp
  ultimately have "100 dvd y" using dvd_trans by blast
  then show ?thesis by (simp add: mod_eq_0_iff_dvd)
qed

lemma step365:
  fixes y a b c a' b' c' :: int
  assumes "a = a' + (if p then 1 else 0)" "b = b' + (if q then 1 else 0)" "c = c' + (if r then 1 else 0)"
    and "q \<Longrightarrow> p" "r \<Longrightarrow> q"
  shows "365 * y + a - b + c = 365 * (y - 1) + a' - b' + c' + (if (p \<and> \<not> q) \<or> r then 366 else 365)"
  using assms by (auto split: if_splits)

lemma daysBeforeYear_Suc:
  "daysBeforeYear (y + 1) = daysBeforeYear y + (if isLeapYear y then 366 else 365)"
proof -
  have a: "daysBeforeYear (y + 1) = 365 * y + y div 4 - y div 100 + y div 400"
    by (simp add: daysBeforeYear_def)
  have b: "365 * y + y div 4 - y div 100 + y div 400 = 365 * (y - 1) + (y - 1) div 4 - (y - 1) div 100 + (y - 1) div 400
      + (if (y mod 4 = 0 \<and> \<not> y mod 100 = 0) \<or> y mod 400 = 0 then 366 else 365)"
    apply (rule step365)
        apply (rule div_step, simp)
       apply (rule div_step, simp)
      apply (rule div_step, simp)
     apply (erule mod_100_4)
    apply (erule mod_400_100)
    done
  have c: "365 * (y - 1) + (y - 1) div 4 - (y - 1) div 100 + (y - 1) div 400
      + (if (y mod 4 = 0 \<and> \<not> y mod 100 = 0) \<or> y mod 400 = 0 then 366 else 365)
      = daysBeforeYear y + (if isLeapYear y then 366 else 365)"
    unfolding daysBeforeYear_def isLeapYear_def by (rule refl)
  from a b c show ?thesis by (rule trans[OF trans])
qed

lemma getDaysInMonth_bounds: "28 \<le> getDaysInMonth y m" "getDaysInMonth y m \<le> 31"
  by (simp_all add: getDaysInMonth_def)

lemma nextDay_valid:
  assumes "validDate d"
  shows "validDate (nextDay d)" and "dayNumber (nextDay d) = dayNumber d + 1"
proof -
  from assms have v: "1 \<le> month d" "month d \<le> 12" "1 \<le> dayOfMonth d"
    "dayOfMonth d \<le> getDaysInMonth (year d) (month d)" by (simp_all add: validDate_def)
  consider (a) "dayOfMonth d < getDaysInMonth (year d) (month d)"
    | (b) "dayOfMonth d = getDaysInMonth (year d) (month d)" "month d < 12"
    | (c) "dayOfMonth d = getDaysInMonth (year d) (month d)" "month d = 12"
    using v by atomize_elim arith
  then have "validDate (nextDay d) \<and> dayNumber (nextDay d) = dayNumber d + 1"
  proof cases
    case a
    then have "nextDay d = d\<lparr>dayOfMonth := dayOfMonth d + 1\<rparr>" by (simp add: nextDay_def)
    with a v show ?thesis by (simp add: validDate_def dayNumber_def)
  next
    case b
    then have n: "nextDay d = d\<lparr>month := Suc (month d), dayOfMonth := 1\<rparr>"
      by (simp add: nextDay_def)
    have "daysBeforeMonth (year d) (Suc (month d)) =
        daysBeforeMonth (year d) (month d) + getDaysInMonth (year d) (month d)"
      using v by (simp add: daysBeforeMonth_Suc)
    with b v getDaysInMonth_bounds(1)[of "year d" "Suc (month d)"] show ?thesis
      unfolding n by (simp add: validDate_def dayNumber_def)
  next
    case c
    then have d31: "dayOfMonth d = 31" by (simp add: getDaysInMonth_def)
    from c have n: "nextDay d = \<lparr>year = year d + 1, month = 1, dayOfMonth = 1\<rparr>"
      by (simp add: nextDay_def)
    have "dayNumber d = daysBeforeYear (year d) + (if isLeapYear (year d) then 366 else 365)"
      using c d31 days_in_year[of "year d"] by (simp add: dayNumber_def)
    then show ?thesis unfolding n
      by (simp add: validDate_def dayNumber_def daysBeforeMonth_1 getDaysInMonth_def
          daysBeforeYear_Suc)
  qed
  then show "validDate (nextDay d)" and "dayNumber (nextDay d) = dayNumber d + 1" by simp_all
qed

lemma prevDay_valid:
  assumes "validDate d"
  shows "validDate (prevDay d)" and "nextDay (prevDay d) = d"
proof -
  from assms have v: "1 \<le> month d" "month d \<le> 12" "1 \<le> dayOfMonth d"
    "dayOfMonth d \<le> getDaysInMonth (year d) (month d)" by (simp_all add: validDate_def)
  consider (a) "1 < dayOfMonth d" | (b) "dayOfMonth d = 1" "1 < month d"
    | (c) "dayOfMonth d = 1" "month d = 1"
    using v by atomize_elim arith
  then have "validDate (prevDay d) \<and> nextDay (prevDay d) = d"
  proof cases
    case a
    then have p: "prevDay d = d\<lparr>dayOfMonth := dayOfMonth d - 1\<rparr>" by (simp add: prevDay_def)
    have lt: "dayOfMonth d - 1 < getDaysInMonth (year d) (month d)" using a v by arith
    have bk: "Suc (dayOfMonth d - 1) = dayOfMonth d" using a by arith
    have "nextDay (d\<lparr>dayOfMonth := dayOfMonth d - 1\<rparr>) = d"
      using lt bk by (simp add: nextDay_def)
    moreover have "validDate (d\<lparr>dayOfMonth := dayOfMonth d - 1\<rparr>)"
      using a v lt by (simp add: validDate_def)
    ultimately show ?thesis unfolding p by simp
  next
    case b
    then have p: "prevDay d = d\<lparr>month := month d - 1,
        dayOfMonth := getDaysInMonth (year d) (month d - 1)\<rparr>" by (simp add: prevDay_def)
    have bk: "Suc (month d - 1) = month d" "month d - 1 < 12" "1 \<le> month d - 1"
      using b v by arith+
    have "nextDay (d\<lparr>month := month d - 1, dayOfMonth := getDaysInMonth (year d) (month d - 1)\<rparr>) = d"
      using bk b by (simp add: nextDay_def)
    moreover have "validDate (d\<lparr>month := month d - 1,
        dayOfMonth := getDaysInMonth (year d) (month d - 1)\<rparr>)"
    proof -
      have "1 \<le> getDaysInMonth (year d) (month d - 1)"
        using getDaysInMonth_bounds(1)[of "year d" "month d - 1"] by arith
      moreover have "month d - 1 \<le> 12" using bk(2) by arith
      ultimately show ?thesis using bk(3) by (simp add: validDate_def)
    qed
    ultimately show ?thesis unfolding p by simp
  next
    case c
    then have p: "prevDay d = \<lparr>year = year d - 1, month = 12, dayOfMonth = 31\<rparr>"
      by (simp add: prevDay_def)
    have "d = \<lparr>year = year d, month = 1, dayOfMonth = 1\<rparr>" using c by simp
    then show ?thesis unfolding p
      by (simp add: nextDay_def validDate_def getDaysInMonth_def)
  qed
  then show "validDate (prevDay d)" and "nextDay (prevDay d) = d" by simp_all
qed

lemma prevDay_dayNumber: "validDate d \<Longrightarrow> dayNumber (prevDay d) = dayNumber d - 1"
  using nextDay_valid(2)[of "prevDay d"] prevDay_valid[of d] by simp

text \<open>
  \<open>startOfMonth\<close>, \<open>endOfMonth\<close>, \<open>startOfWeek\<close> and \<open>endOfWeek\<close> with the option
  \<open>weekStartsOn\<close>, and \<open>eachDayOfInterval\<close>, whose loop steps day by day while the current day
  is not after the end. The loop's test also asks that the current day exists, which holds of
  every \<open>Date\<close> and makes the function total on all of \<open>caldate\<close>.
\<close>

definition startOfMonth :: "caldate \<Rightarrow> caldate" where
  "startOfMonth d = d\<lparr>dayOfMonth := 1\<rparr>"

definition endOfMonth :: "caldate \<Rightarrow> caldate" where
  "endOfMonth d = d\<lparr>dayOfMonth := getDaysInMonth (year d) (month d)\<rparr>"

definition startOfWeek :: "caldate \<Rightarrow> int \<Rightarrow> caldate" where
  "startOfWeek d weekStartsOn =
     (let day = getDay d;
          diff = (if day < weekStartsOn then 7 else 0) + day - weekStartsOn
      in addDays d (- diff))"

definition endOfWeek :: "caldate \<Rightarrow> int \<Rightarrow> caldate" where
  "endOfWeek d weekStartsOn =
     (let day = getDay d;
          diff = (if day < weekStartsOn then - 7 else 0) + 6 - (day - weekStartsOn)
      in addDays d diff)"

function eachDayFrom :: "caldate \<Rightarrow> caldate \<Rightarrow> caldate list" where
  "eachDayFrom currentDate endDate =
     (if validDate currentDate \<and> dayNumber currentDate \<le> dayNumber endDate
      then currentDate # eachDayFrom (nextDay currentDate) endDate
      else [])"
  by pat_completeness auto
termination
  by (relation "measure (\<lambda>(c, e). nat (dayNumber e + 1 - dayNumber c))")
    (auto simp: nextDay_valid)

declare eachDayFrom.simps [simp del]

definition eachDayOfInterval :: "caldate \<Rightarrow> caldate \<Rightarrow> caldate list" where
  "eachDayOfInterval startDate endDate = eachDayFrom startDate endDate"

section \<open>Period totals (\<open>getPeriodTotal\<close>)\<close>

datatype period = Day | Week | Month

text \<open>
  Lines 290-294: the day's energy in a snapshot. A missing plant, device, \<open>historyLast\<close> or
  \<open>eacToday\<close> gives 0; \<open>Object.keys(plant.devices)\<close> throws when the plant has no \<open>devices\<close>.
\<close>

definition dayFigure :: "snapshot \<Rightarrow> error + real" where
  "dayFigure snap =
     (case firstValue snap of
        None \<Rightarrow> Inr 0
      | Some p \<Rightarrow>
          (case firstDevice p of
             Inl e \<Rightarrow> Inl e
           | Inr None \<Rightarrow> Inr 0
           | Inr (Some dev) \<Rightarrow>
               (case historyLast dev of
                  None \<Rightarrow> Inr 0
                | Some h \<Rightarrow> (case eacToday h of None \<Rightarrow> Inr 0 | Some v \<Rightarrow> Inr v))))"

text \<open>
  \<open>getPeriodTotal\<close> (monitor.js 287-311). \<open>getDayTotal\<close> is its branch for \<open>'day'\<close>, which the
  loop of lines 306-309 (\<open>sumDays\<close>) calls for each day of the interval; a fetch that throws
  ends the loop with the error. Any period other than \<open>'day'\<close> and \<open>'week'\<close> is a month; the
  callers pass these three. Every fetch of the loop reads the clock as \<open>now\<close>: the clock decides
  only whether the cache is refreshed, never a total.
\<close>

definition getDayTotal :: "(caldate \<Rightarrow> snapshot option) \<Rightarrow> jsDate \<Rightarrow> caldate \<Rightarrow> world
    \<Rightarrow> (error + real) \<times> world" where
  "getDayTotal api now d w =
     (case getGrowattData api now True d w of
        (Inl e, w1) \<Rightarrow> (Inl e, w1)
      | (Inr snap, w1) \<Rightarrow> (dayFigure snap, w1))"

fun sumDays :: "(caldate \<Rightarrow> snapshot option) \<Rightarrow> jsDate \<Rightarrow> caldate list \<Rightarrow> real \<Rightarrow> world
    \<Rightarrow> (error + real) \<times> world" where
  "sumDays api now [] subtotal w = (Inr subtotal, w)"
| "sumDays api now (day # days) subtotal w =
     (case getDayTotal api now day w of
        (Inl e, w1) \<Rightarrow> (Inl e, w1)
      | (Inr dayTotal, w1) \<Rightarrow> sumDays api now days (subtotal + dayTotal) w1)"

definition getPeriodTotal :: "(caldate \<Rightarrow> snapshot option) \<Rightarrow> jsDate \<Rightarrow> caldate \<Rightarrow> period \<Rightarrow> world
    \<Rightarrow> (error + real) \<times> world" where
  "getPeriodTotal api now d p w =
     (case p of
        Day \<Rightarrow> getDayTotal api now d w
      | Week \<Rightarrow> sumDays api now (eachDayOfInterval (startOfWeek d 1) (endOfWeek d 1)) 0 w
      | Month \<Rightarrow> sumDays api now (eachDayOfInterval (startOfMonth d) (endOfMonth d)) 0 w)"

text \<open>
  In the words of the specification: every calendar day of the month containing \<open>d\<close>, and the
  seven days from the Monday on or before \<open>d\<close>.
\<close>

definition calendarMonth :: "caldate \<Rightarrow> caldate list" where
  "calendarMonth d = map (\<lambda>k. d\<lparr>dayOfMonth := k\<rparr>) [1..<Suc (getDaysInMonth (year d) (month d))]"

definition isoWeek :: "caldate \<Rightarrow> caldate list" where
  "isoWeek d =
     (let monday = addDays d (- ((getDay d + 6) mod 7))
      in map (\<lambda>i. addDays monday (int i)) [0..<7])"

text \<open>
  Sample vendors: one that reports the same energy for every day, one whose plant has no
  \<open>devices\<close>; and a sample day.
\<close>

definition energyOn :: "real \<Rightarrow> caldate \<Rightarrow> snapshot option" where
  "energyOn kilowattHours d =
     Some [(''plant1'', \<lparr>devices = Some [(''inverter1'',
         \<lparr>historyLast = Some \<lparr>pac = Some 0, temperature = Some 20,
            eacToday = Some kilowattHours\<rparr>,
          deviceData = None\<rparr>)],
        plantData = None\<rparr>)]"

definition noDevices :: "caldate \<Rightarrow> snapshot option" where
  "noDevices d = Some [(''plant1'', \<lparr>devices = None, plantData = Some \<lparr>eTotal = Some 950\<rparr>\<rparr>)]"

definition leapDay :: caldate where
  "leapDay = \<lparr>year = 2024, month = 2, dayOfMonth = 29\<rparr>"

section \<open>Properties\<close>

lemma minutes_ge_delay: "15 \<le> differenceInMinutes l r \<longleftrightarrow> 900000 \<le> l - r"
  unfolding differenceInMinutes_def trunc_quot_def
  by (cases "0 \<le> l - r") (simp_all, arith+)

lemma hours_ge_cooldown: "6 \<le> differenceInHours l r \<longleftrightarrow> 21600000 \<le> l - r"
  unfolding differenceInHours_def trunc_quot_def
  by (cases "0 \<le> l - r") (simp_all, arith+)

lemma hours_ge_liveness: "2 \<le> differenceInHours l r \<longleftrightarrow> 7200000 \<le> l - r"
  unfolding differenceInHours_def trunc_quot_def
  by (cases "0 \<le> l - r") (simp_all, arith+)

subsection \<open>The shape of the scheduled tasks\<close>

lemma getGrowattData_force:
  "getGrowattData api now True d w = liveFetch api now (d = localDay now) d w"
  by (simp add: getGrowattData_def Let_def split: option.splits)

lemma hourly_out_of_window:
  assumes "getHours now < CHECK_HOUR_START \<or> getHours now > CHECK_HOUR_END"
  shows "runHourlyChecks api now w =
     (if isSystemDown (status (state w))
      then (w\<lparr>state := (state w)\<lparr>status := \<lparr>isSystemDown = False, outageStartTime = None, urgentAlertSent = False\<rparr>\<rparr>\<rparr>, [])
      else (w, []))"
  using assms by (simp add: runHourlyChecks_def Let_def)

lemma hourly_in_window:
  assumes "CHECK_HOUR_START \<le> getHours now" "getHours now \<le> CHECK_HOUR_END"
  shows "runHourlyChecks api now w =
     (case liveFetch api now True (localDay now) w of
           (Inl e, w1) \<Rightarrow> (w1, [])
         | (Inr snap, w1) \<Rightarrow>
             (case hourlyReadings snap of
                Inl e \<Rightarrow> (w1, [])
              | Inr (watts, temp, lastUpdate) \<Rightarrow>
                  let hoursSinceUpdate = map_option (differenceInHours (getTime now)) lastUpdate;
                      (s1, a1) = livenessCheck now hoursSinceUpdate (state w1);
                      (s2, a2) = tempCheck now temp s1;
                      (s3, a3) = outageCheck now watts s2
                  in (w1\<lparr>state := s3\<rparr>, a1 @ a2 @ a3)))"
  using assms by (simp add: runHourlyChecks_def Let_def getGrowattData_force)

lemma checkUrgent_eq:
  "checkUrgentConditions now s =
     (if isSystemDown (status s) \<and> \<not> urgentAlertSent (status s) \<and>
         (\<exists>t. outageStartTime (status s) = Some t \<and> 15 * 60000 \<le> getTime now - t)
      then (s\<lparr>status := (status s)\<lparr>urgentAlertSent := True\<rparr>\<rparr>, [URGENT_ALERT_MESSAGE 15])
      else (s, []))"
  by (auto simp: checkUrgentConditions_def minutes_ge_delay URGENT_ALERT_DELAY_MINUTES_def Let_def split: option.splits)

lemma outageCheck_cases:
  "outageCheck now watts s =
     (if \<exists>p. watts = Some p \<and> p > 0 \<and> isSystemDown (status s)
      then (s\<lparr>status := \<lparr>isSystemDown = False, outageStartTime = None, urgentAlertSent = False\<rparr>\<rparr>,
            [RECOVERY_MESSAGE (the watts)])
      else if watts = Some 0 \<and> \<not> isSystemDown (status s)
      then (s\<lparr>status := \<lparr>isSystemDown = True, outageStartTime = Some (getTime now),
                            urgentAlertSent = urgentAlertSent (status s)\<rparr>\<rparr>, [OUTAGE_MESSAGE])
      else (s, []))"
  by (auto simp: outageCheck_def split: option.splits)

lemma hourly_ok:
  assumes "CHECK_HOUR_START \<le> getHours now" "getHours now \<le> CHECK_HOUR_END"
    and "api (localDay now) = Some snap"
    and "hourlyReadings snap = Inr (watts, temp, lastUpdate)"
    and "livenessCheck now (map_option (differenceInHours (getTime now)) lastUpdate) (state w) = (s1, a1)"
    and "tempCheck now temp s1 = (s2, a2)"
    and "outageCheck now watts s2 = (s3, a3)"
  shows "runHourlyChecks api now w =
     (w\<lparr>state := s3, apiCache := \<lparr>cached = Some snap, timestamp = getTime now\<rparr>,
        apiCalls := apiCalls w @ [localDay now]\<rparr>, a1 @ a2 @ a3)"
  using assms by (simp add: hourly_in_window liveFetch_def Let_def)

lemma hourly_failed:
  assumes "CHECK_HOUR_START \<le> getHours now" "getHours now \<le> CHECK_HOUR_END"
    and "api (localDay now) = None \<or> (\<exists>snap e. api (localDay now) = Some snap \<and> hourlyReadings snap = Inl e)"
  shows "snd (runHourlyChecks api now w) = [] \<and> state (fst (runHourlyChecks api now w)) = state w"
  using assms by (auto simp add: hourly_in_window liveFetch_def Let_def)

lemma hourly_cases [consumes 2, case_names failed ok]:
  assumes "CHECK_HOUR_START \<le> getHours now" "getHours now \<le> CHECK_HOUR_END"
  obtains "snd (runHourlyChecks api now w) = []" "state (fst (runHourlyChecks api now w)) = state w"
  | snap watts temp lastUpdate s1 a1 s2 a2 s3 a3 where
      "api (localDay now) = Some snap"
      "hourlyReadings snap = Inr (watts, temp, lastUpdate)"
      "livenessCheck now (map_option (differenceInHours (getTime now)) lastUpdate) (state w) = (s1, a1)"
      "tempCheck now temp s1 = (s2, a2)"
      "outageCheck now watts s2 = (s3, a3)"
      "state (fst (runHourlyChecks api now w)) = s3"
      "snd (runHourlyChecks api now w) = a1 @ a2 @ a3"
proof (cases "api (localDay now)")
  case None
  with hourly_failed[OF assms, of api w] that(1) show ?thesis by blast
next
  case (Some snap)
  show ?thesis
  proof (cases "hourlyReadings snap")
    case (Inl e)
    with Some hourly_failed[OF assms, of api w] that(1) show ?thesis by blast
  next
    case (Inr r)
    obtain watts temp lastUpdate where r: "r = (watts, temp, lastUpdate)" by (cases r) auto
    obtain s1 a1 where l: "livenessCheck now (map_option (differenceInHours (getTime now)) lastUpdate) (state w) = (s1, a1)"
      by (cases "livenessCheck now (map_option (differenceInHours (getTime now)) lastUpdate) (state w)") auto
    obtain s2 a2 where t: "tempCheck now temp s1 = (s2, a2)" by (cases "tempCheck now temp s1") auto
    obtain s3 a3 where ou: "outageCheck now watts s2 = (s3, a3)" by (cases "outageCheck now watts s2") auto
    from hourly_ok[of now api snap watts temp lastUpdate w s1 a1 s2 a2 s3 a3] assms Some Inr r l t ou
    have "state (fst (runHourlyChecks api now w)) = s3" "snd (runHourlyChecks api now w) = a1 @ a2 @ a3"
      by simp_all
    with that(2)[OF Some Inr[unfolded r] l t ou] show ?thesis by blast
  qed
qed

lemma daily_ok:
  assumes "api (localDay now) = Some snap"
    and "dailyReadings snap = Inr (today, lifetime)"
    and "bestDayCheck now today (state w) = (s1, a1)"
    and "milestoneCheck lifetime s1 = (s2, a2)"
    and "cleaningCheck dd now s2 = (s3, a3)"
  shows "runDailyEveningChecks api dd now w =
     (w\<lparr>state := s3, apiCache := \<lparr>cached = Some snap, timestamp = getTime now\<rparr>,
        apiCalls := apiCalls w @ [localDay now]\<rparr>, a1 @ a2 @ a3)"
  using assms by (simp add: runDailyEveningChecks_def getGrowattData_force liveFetch_def Let_def)

lemma daily_failed:
  assumes "api (localDay now) = None \<or> (\<exists>snap e. api (localDay now) = Some snap \<and> dailyReadings snap = Inl e)"
  shows "snd (runDailyEveningChecks api dd now w) = [] \<and> state (fst (runDailyEveningChecks api dd now w)) = state w"
  using assms by (auto simp add: runDailyEveningChecks_def getGrowattData_force liveFetch_def Let_def)

lemma daily_cases [case_names failed ok]:
  obtains "snd (runDailyEveningChecks api dd now w) = []"
      "state (fst (runDailyEveningChecks api dd now w)) = state w"
  | snap today lifetime s1 a1 s2 a2 s3 a3 where
      "api (localDay now) = Some snap"
      "dailyReadings snap = Inr (today, lifetime)"
      "bestDayCheck now today (state w) = (s1, a1)"
      "milestoneCheck lifetime s1 = (s2, a2)"
      "cleaningCheck dd now s2 = (s3, a3)"
      "state (fst (runDailyEveningChecks api dd now w)) = s3"
      "snd (runDailyEveningChecks api dd now w) = a1 @ a2 @ a3"
proof (cases "api (localDay now)")
  case None
  with daily_failed[of api now dd w] that(1) show ?thesis by blast
next
  case (Some snap)
  show ?thesis
  proof (cases "dailyReadings snap")
    case (Inl e)
    with Some daily_failed[of api now dd w] that(1) show ?thesis by blast
  next
    case (Inr r)
    obtain today lifetime where r: "r = (today, lifetime)" by (cases r) auto
    obtain s1 a1 where b: "bestDayCheck now today (state w) = (s1, a1)"
      by (cases "bestDayCheck now today (state w)") auto
    obtain s2 a2 where m: "milestoneCheck lifetime s1 = (s2, a2)"
      by (cases "milestoneCheck lifetime s1") auto
    obtain s3 a3 where c: "cleaningCheck dd now s2 = (s3, a3)"
      by (cases "cleaningCheck dd now s2") auto
    from daily_ok[of api now snap today lifetime w s1 a1 s2 a2 dd s3 a3] Some Inr r b m c
    have "state (fst (runDailyEveningChecks api dd now w)) = s3"
      "snd (runDailyEveningChecks api dd now w) = a1 @ a2 @ a3"
      by simp_all
    with that(2) Some Inr r b m c show ?thesis by blast
  qed
qed

lemma daily_checks_status:
  "bestDayCheck now today s = (s', out) \<Longrightarrow> status s' = status s \<and> URGENT_ALERT_MESSAGE m \<notin> set out"
  "milestoneCheck lifetime s = (s', out) \<Longrightarrow> status s' = status s \<and> URGENT_ALERT_MESSAGE m \<notin> set out"
  "cleaningCheck dd now s = (s', out) \<Longrightarrow> status s' = status s \<and> URGENT_ALERT_MESSAGE m \<notin> set out"
  by (auto simp: bestDayCheck_def milestoneCheck_def cleaningCheck_def split: option.splits if_splits)

lemma daily_status:
  "status (state (fst (runDailyEveningChecks api dd now w))) = status (state w)"
proof (cases rule: daily_cases[of api dd now w])
  case failed
  then show ?thesis by simp
next
  case (ok snap today lifetime s1 a1 s2 a2 s3 a3)
  then show ?thesis using daily_checks_status(1)[OF ok(3)] daily_checks_status(2)[OF ok(4)]
      daily_checks_status(3)[OF ok(5)] by simp
qed

lemma daily_no_urgent:
  "URGENT_ALERT_MESSAGE m \<notin> set (snd (runDailyEveningChecks api dd now w))"
proof (cases rule: daily_cases[of api dd now w])
  case failed
  then show ?thesis by simp
next
  case (ok snap today lifetime s1 a1 s2 a2 s3 a3)
  then show ?thesis using daily_checks_status(1)[OF ok(3), of m] daily_checks_status(2)[OF ok(4), of m]
      daily_checks_status(3)[OF ok(5), of m] by simp
qed

lemma hourly_checks_status:
  "livenessCheck now h s = (s', out) \<Longrightarrow> status s' = status s \<and> URGENT_ALERT_MESSAGE m \<notin> set out
      \<and> OUTAGE_MESSAGE \<notin> set out \<and> RECOVERY_MESSAGE q \<notin> set out"
  "tempCheck now c s = (s', out) \<Longrightarrow> status s' = status s \<and> URGENT_ALERT_MESSAGE m \<notin> set out
      \<and> OUTAGE_MESSAGE \<notin> set out \<and> RECOVERY_MESSAGE q \<notin> set out"
  by (auto simp: livenessCheck_def tempCheck_def split: option.splits if_splits)

lemma hourly_no_urgent:
  "URGENT_ALERT_MESSAGE m \<notin> set (snd (runHourlyChecks api now w))"
proof (cases "getHours now < CHECK_HOUR_START \<or> getHours now > CHECK_HOUR_END")
  case True
  then show ?thesis by (simp add: hourly_out_of_window)
next
  case False
  then have iw: "CHECK_HOUR_START \<le> getHours now" "getHours now \<le> CHECK_HOUR_END" by auto
  from iw show ?thesis
  proof (cases rule: hourly_cases[where api=api and w=w])
    case failed
    then show ?thesis by simp
  next
    case (ok snap watts temp lastUpdate s1 a1 s2 a2 s3 a3)
    from ok(5) have "URGENT_ALERT_MESSAGE m \<notin> set a3"
      by (auto simp: outageCheck_cases split: if_splits)
    then show ?thesis using ok hourly_checks_status(1)[OF ok(3), of m] hourly_checks_status(2)[OF ok(4), of m]
      by simp
  qed
qed

text \<open>The status after an hourly tick inside the window.\<close>
lemma hourly_status_in_window:
  assumes "CHECK_HOUR_START \<le> getHours now" "getHours now \<le> CHECK_HOUR_END"
  shows "status (state (fst (runHourlyChecks api now w))) = status (state w) \<and>
           OUTAGE_MESSAGE \<notin> set (snd (runHourlyChecks api now w)) \<and>
           (\<forall>q. RECOVERY_MESSAGE q \<notin> set (snd (runHourlyChecks api now w)))
       \<or> isSystemDown (status (state w)) \<and>
           status (state (fst (runHourlyChecks api now w))) =
             \<lparr>isSystemDown = False, outageStartTime = None, urgentAlertSent = False\<rparr> \<and>
           OUTAGE_MESSAGE \<notin> set (snd (runHourlyChecks api now w)) \<and>
           (\<exists>q. RECOVERY_MESSAGE q \<in> set (snd (runHourlyChecks api now w)))
       \<or> \<not> isSystemDown (status (state w)) \<and>
           status (state (fst (runHourlyChecks api now w))) =
             \<lparr>isSystemDown = True, outageStartTime = Some (getTime now),
              urgentAlertSent = urgentAlertSent (status (state w))\<rparr> \<and>
           OUTAGE_MESSAGE \<in> set (snd (runHourlyChecks api now w)) \<and>
           (\<forall>q. RECOVERY_MESSAGE q \<notin> set (snd (runHourlyChecks api now w)))"
  using assms
proof (cases rule: hourly_cases[where api=api and w=w])
  case failed
  then show ?thesis by simp
next
  case (ok snap watts temp lastUpdate s1 a1 s2 a2 s3 a3)
  have st: "status s2 = status (state w)"
    using hourly_checks_status(1)[OF ok(3)] hourly_checks_status(2)[OF ok(4)] by simp
  have no: "OUTAGE_MESSAGE \<notin> set a1" "OUTAGE_MESSAGE \<notin> set a2"
    "\<And>q. RECOVERY_MESSAGE q \<notin> set a1" "\<And>q. RECOVERY_MESSAGE q \<notin> set a2"
    using hourly_checks_status(1)[OF ok(3)] hourly_checks_status(2)[OF ok(4)] by simp_all
  from ok(5) st no show ?thesis unfolding ok(6,7)
    by (auto simp: outageCheck_cases split: if_splits)
qed

lemma sample_readings:
  "hourlyReadings (sampleSnapshot watts celsius updated lifetime) = Inr (Some watts, Some celsius, Some updated)"
  "dailyReadings (sampleSnapshot watts celsius updated lifetime) = Inr (Some 12, Some lifetime)"
  by (simp_all add: hourlyReadings_def dailyReadings_def sampleSnapshot_def firstValue_def firstDevice_def)

subsection \<open>Escalation\<close>

text \<open>
  C1. The per-minute check sends the escalation and sets \<open>urgentAlertSent\<close> exactly when the
  system is down, no escalation was sent, and 15 minutes (900000 ms) or more have passed since
  \<open>outageStartTime\<close>; it changes nothing otherwise. Once \<open>urgentAlertSent\<close> is set, no scheduled
  task sends an escalation, and the flag stays set unless the task is an hourly tick outside
  the window or one that sends the recovery message.
\<close>

theorem escalation_exactly_when_due:
  "checkUrgentConditions now s =
     (if isSystemDown (status s) \<and> \<not> urgentAlertSent (status s) \<and>
         (\<exists>t. outageStartTime (status s) = Some t \<and> 15 * 60000 \<le> getTime now - t)
      then (s\<lparr>status := (status s)\<lparr>urgentAlertSent := True\<rparr>\<rparr>, [URGENT_ALERT_MESSAGE 15])
      else (s, []))
   \<and> (urgentAlertSent (status (state w)) \<longrightarrow>
        (\<forall>m. URGENT_ALERT_MESSAGE m \<notin> set (snd (step e w))) \<and>
        (urgentAlertSent (status (state (fst (step e w)))) \<or>
         (\<exists>api t. e = Hourly api t \<and>
            (getHours t < CHECK_HOUR_START \<or> CHECK_HOUR_END < getHours t \<or>
             (\<exists>q. RECOVERY_MESSAGE q \<in> set (snd (step e w)))))))"
proof (intro conjI impI)
  show "checkUrgentConditions now s =
     (if isSystemDown (status s) \<and> \<not> urgentAlertSent (status s) \<and>
         (\<exists>t. outageStartTime (status s) = Some t \<and> 15 * 60000 \<le> getTime now - t)
      then (s\<lparr>status := (status s)\<lparr>urgentAlertSent := True\<rparr>\<rparr>, [URGENT_ALERT_MESSAGE 15])
      else (s, []))"
    by (rule checkUrgent_eq)
next
  assume u: "urgentAlertSent (status (state w))"
  show "\<forall>m. URGENT_ALERT_MESSAGE m \<notin> set (snd (step e w))"
  proof (cases e)
    case (EveryMinute now')
    with u show ?thesis by (simp add: checkUrgent_eq)
  next
    case (Hourly api t)
    then show ?thesis by (simp add: hourly_no_urgent)
  next
    case (DailyEvening api dd t)
    then show ?thesis by (simp add: daily_no_urgent)
  qed
  show "urgentAlertSent (status (state (fst (step e w)))) \<or>
         (\<exists>api t. e = Hourly api t \<and>
            (getHours t < CHECK_HOUR_START \<or> CHECK_HOUR_END < getHours t \<or>
             (\<exists>q. RECOVERY_MESSAGE q \<in> set (snd (step e w)))))"
  proof (cases e)
    case (EveryMinute now')
    with u show ?thesis by (simp add: checkUrgent_eq)
  next
    case (Hourly api t)
    show ?thesis
    proof (cases "getHours t < CHECK_HOUR_START \<or> CHECK_HOUR_END < getHours t")
      case True
      with Hourly show ?thesis by auto
    next
      case False
      then have "CHECK_HOUR_START \<le> getHours t" "getHours t \<le> CHECK_HOUR_END" by auto
      from hourly_status_in_window[OF this, of api w] u Hourly show ?thesis by auto
    qed
  next
    case (DailyEvening api dd t)
    with u show ?thesis by (simp add: daily_status)
  qed
qed

theorem escalation_exactly_when_due_witness:
  "checkUrgentConditions (noon 900000) (state (downSince 0 False)) =
     ((state (downSince 0 False))\<lparr>status := \<lparr>isSystemDown = True, outageStartTime = Some 0,
        urgentAlertSent = True\<rparr>\<rparr>, [URGENT_ALERT_MESSAGE 15])
   \<and> checkUrgentConditions (noon 899999) (state (downSince 0 False)) = (state (downSince 0 False), [])
   \<and> urgentAlertSent (status (state (downSince 0 True)))
   \<and> (\<forall>m. URGENT_ALERT_MESSAGE m \<notin> set (snd (step (EveryMinute (noon 3600000)) (downSince 0 True))))
   \<and> urgentAlertSent (status (state (fst (step (EveryMinute (noon 3600000)) (downSince 0 True)))))"
  using escalation_exactly_when_due[of "noon 900000" "state (downSince 0 False)" "downSince 0 True"
      "EveryMinute (noon 3600000)"]
    escalation_exactly_when_due[of "noon 899999" "state (downSince 0 False)" "downSince 0 True"
      "EveryMinute (noon 3600000)"]
  by (simp add: downSince_def noon_def initialWorld_def)

subsection \<open>The hourly tick outside the window\<close>

text \<open>
  C5. An hourly tick whose hour is before 10 or after 15 sends nothing, whatever the vendor
  would report: it does not query the vendor, it never sets \<open>isSystemDown\<close>, and where the
  system was down it clears \<open>isSystemDown\<close>, \<open>outageStartTime\<close> and \<open>urgentAlertSent\<close>; the
  stats and the cache are as before.
\<close>

theorem out_of_window_tick:
  assumes "getHours now < CHECK_HOUR_START \<or> CHECK_HOUR_END < getHours now"
  shows "runHourlyChecks api now w =
           (if isSystemDown (status (state w))
            then (w\<lparr>state := (state w)\<lparr>status :=
                    \<lparr>isSystemDown = False, outageStartTime = None, urgentAlertSent = False\<rparr>\<rparr>\<rparr>, [])
            else (w, []))
         \<and> snd (runHourlyChecks api now w) = []
         \<and> \<not> isSystemDown (status (state (fst (runHourlyChecks api now w))))
         \<and> (isSystemDown (status (state w)) \<longrightarrow>
              outageStartTime (status (state (fst (runHourlyChecks api now w)))) = None \<and>
              \<not> urgentAlertSent (status (state (fst (runHourlyChecks api now w)))))
         \<and> stats (state (fst (runHourlyChecks api now w))) = stats (state w)
         \<and> apiCalls (fst (runHourlyChecks api now w)) = apiCalls w
         \<and> apiCache (fst (runHourlyChecks api now w)) = apiCache w"
  using assms by (simp add: hourly_out_of_window)

theorem out_of_window_tick_witness:
  "CHECK_HOUR_END < getHours (evening 0)
   \<and> runHourlyChecks (\<lambda>d. Some (sampleSnapshot 0 35 0 950)) (evening 0) (downSince 0 True)
       = (initialWorld None, [])
   \<and> runHourlyChecks (\<lambda>d. Some (sampleSnapshot 0 35 0 950)) (evening 0) (initialWorld None)
       = (initialWorld None, [])"
  using out_of_window_tick[of "evening 0" "\<lambda>d. Some (sampleSnapshot 0 35 0 950)"
      "downSince 0 True"]
    out_of_window_tick[of "evening 0" "\<lambda>d. Some (sampleSnapshot 0 35 0 950)"
      "initialWorld None"]
  by (simp add: evening_def CHECK_HOUR_END_def CHECK_HOUR_START_def downSince_def initialWorld_def
      loadState_def defaultStatus_def)

subsection \<open>A down state without a start time\<close>

text \<open>
  C10. With \<open>outageStartTime\<close> null the per-minute check sends nothing and leaves the state as
  it is, at every clock; a state file that records \<open>isSystemDown\<close> and no \<open>outageStartTime\<close>
  loads as such a state.
\<close>

theorem no_start_time_no_escalation:
  "(outageStartTime (status s) = None \<longrightarrow> checkUrgentConditions now s = (s, []))
   \<and> (saved_status loadedState = Some u \<and> saved_outageStartTime u = None \<longrightarrow>
        isSystemDown (status (loadState (Some loadedState))) = orDefault False (saved_isSystemDown u) \<and>
        outageStartTime (status (loadState (Some loadedState))) = None \<and>
        checkUrgentConditions now (loadState (Some loadedState)) = (loadState (Some loadedState), []))"
  by (simp add: checkUrgentConditions_def loadState_def)

theorem no_start_time_no_escalation_witness:
  "isSystemDown (status (loadState (Some downWithoutStart)))
   \<and> \<not> urgentAlertSent (status (loadState (Some downWithoutStart)))
   \<and> outageStartTime (status (loadState (Some downWithoutStart))) = None
   \<and> checkUrgentConditions (noon 86400000) (loadState (Some downWithoutStart))
       = (loadState (Some downWithoutStart), [])"
  using no_start_time_no_escalation[of "loadState (Some downWithoutStart)" "noon 86400000"
      downWithoutStart "\<lparr>saved_isSystemDown = Some True, saved_outageStartTime = None,
           saved_urgentAlertSent = None\<rparr>"]
  by (simp add: downWithoutStart_def loadState_def orDefault_def)

subsection \<open>Outage and recovery\<close>

text \<open>
  C3. An hourly tick inside the window whose snapshot gives the readings, with power \<open>p\<close>: if
  \<open>p = 0\<close> and the system was up, it is down afterwards with \<open>outageStartTime\<close> the clock of
  the tick, and the outage message is sent; if \<open>p > 0\<close> and the system was down, it is up
  afterwards with \<open>outageStartTime\<close> and \<open>urgentAlertSent\<close> cleared, and the recovery message
  is sent. No tick sends both messages.
\<close>

theorem outage_transitions:
  "(CHECK_HOUR_START \<le> getHours now \<and> getHours now \<le> CHECK_HOUR_END \<and>
    api (localDay now) = Some snap \<and> hourlyReadings snap = Inr (Some p, temp, lastUpdate) \<longrightarrow>
      (p = 0 \<and> \<not> isSystemDown (status (state w)) \<longrightarrow>
         status (state (fst (runHourlyChecks api now w))) =
           \<lparr>isSystemDown = True, outageStartTime = Some (getTime now),
            urgentAlertSent = urgentAlertSent (status (state w))\<rparr> \<and>
         OUTAGE_MESSAGE \<in> set (snd (runHourlyChecks api now w))) \<and>
      (p > 0 \<and> isSystemDown (status (state w)) \<longrightarrow>
         status (state (fst (runHourlyChecks api now w))) =
           \<lparr>isSystemDown = False, outageStartTime = None, urgentAlertSent = False\<rparr> \<and>
         RECOVERY_MESSAGE p \<in> set (snd (runHourlyChecks api now w))))
   \<and> \<not> (OUTAGE_MESSAGE \<in> set (snd (runHourlyChecks api now w)) \<and>
          (\<exists>q. RECOVERY_MESSAGE q \<in> set (snd (runHourlyChecks api now w))))"
proof -
  have one: "\<not> (OUTAGE_MESSAGE \<in> set (snd (runHourlyChecks api now w)) \<and>
          (\<exists>q. RECOVERY_MESSAGE q \<in> set (snd (runHourlyChecks api now w))))"
  proof (cases "getHours now < CHECK_HOUR_START \<or> CHECK_HOUR_END < getHours now")
    case True
    then show ?thesis by (simp add: hourly_out_of_window)
  next
    case False
    then have "CHECK_HOUR_START \<le> getHours now" "getHours now \<le> CHECK_HOUR_END" by auto
    from hourly_status_in_window[OF this, of api w] show ?thesis by auto
  qed
  have two: "(p = 0 \<and> \<not> isSystemDown (status (state w)) \<longrightarrow>
         status (state (fst (runHourlyChecks api now w))) =
           \<lparr>isSystemDown = True, outageStartTime = Some (getTime now),
            urgentAlertSent = urgentAlertSent (status (state w))\<rparr> \<and>
         OUTAGE_MESSAGE \<in> set (snd (runHourlyChecks api now w))) \<and>
      (p > 0 \<and> isSystemDown (status (state w)) \<longrightarrow>
         status (state (fst (runHourlyChecks api now w))) =
           \<lparr>isSystemDown = False, outageStartTime = None, urgentAlertSent = False\<rparr> \<and>
         RECOVERY_MESSAGE p \<in> set (snd (runHourlyChecks api now w)))"
    if a: "CHECK_HOUR_START \<le> getHours now \<and> getHours now \<le> CHECK_HOUR_END \<and>
      api (localDay now) = Some snap \<and> hourlyReadings snap = Inr (Some p, temp, lastUpdate)"
  proof -
    obtain s1 a1 where l: "livenessCheck now (map_option (differenceInHours (getTime now)) lastUpdate) (state w) = (s1, a1)"
      by (cases "livenessCheck now (map_option (differenceInHours (getTime now)) lastUpdate) (state w)") auto
    obtain s2 a2 where t: "tempCheck now temp s1 = (s2, a2)" by (cases "tempCheck now temp s1") auto
    obtain s3 a3 where ou: "outageCheck now (Some p) s2 = (s3, a3)"
      by (cases "outageCheck now (Some p) s2") auto
    have run: "runHourlyChecks api now w =
       (w\<lparr>state := s3, apiCache := \<lparr>cached = Some snap, timestamp = getTime now\<rparr>,
          apiCalls := apiCalls w @ [localDay now]\<rparr>, a1 @ a2 @ a3)"
      using hourly_ok[of now api snap "Some p" temp lastUpdate w s1 a1 s2 a2 s3 a3] a l t ou by simp
    have st: "status s2 = status (state w)"
      using hourly_checks_status(1)[OF l] hourly_checks_status(2)[OF t] by simp
    from ou st show ?thesis unfolding run by (auto simp: outageCheck_cases)
  qed
  from one two show ?thesis by blast
qed

theorem outage_transitions_witness:
  "CHECK_HOUR_START \<le> getHours (noon 1000) \<and> getHours (noon 1000) \<le> CHECK_HOUR_END
   \<and> hourlyReadings (sampleSnapshot 0 35 1000 950) = Inr (Some 0, Some 35, Some 1000)
   \<and> \<not> isSystemDown (status (state (initialWorld None)))
   \<and> status (state (fst (runHourlyChecks (\<lambda>d. Some (sampleSnapshot 0 35 1000 950)) (noon 1000)
          (initialWorld None)))) =
        \<lparr>isSystemDown = True, outageStartTime = Some 1000, urgentAlertSent = False\<rparr>
   \<and> OUTAGE_MESSAGE \<in> set (snd (runHourlyChecks (\<lambda>d. Some (sampleSnapshot 0 35 1000 950))
          (noon 1000) (initialWorld None)))
   \<and> isSystemDown (status (state (downSince 0 True)))
   \<and> status (state (fst (runHourlyChecks (\<lambda>d. Some (sampleSnapshot 1500 35 1000 950))
          (noon 3600000) (downSince 0 True)))) =
        \<lparr>isSystemDown = False, outageStartTime = None, urgentAlertSent = False\<rparr>
   \<and> RECOVERY_MESSAGE 1500 \<in> set (snd (runHourlyChecks (\<lambda>d. Some (sampleSnapshot 1500 35 1000 950))
          (noon 3600000) (downSince 0 True)))"
  using outage_transitions[of "noon 1000" "\<lambda>d. Some (sampleSnapshot 0 35 1000 950)"
      "sampleSnapshot 0 35 1000 950" 0 "Some 35" "Some 1000" "initialWorld None"]
    outage_transitions[of "noon 3600000" "\<lambda>d. Some (sampleSnapshot 1500 35 1000 950)"
      "sampleSnapshot 1500 35 1000 950" 1500 "Some 35" "Some 1000" "downSince 0 True"]
  by (simp add: sample_readings noon_def CHECK_HOUR_START_def CHECK_HOUR_END_def initialWorld_def
      downSince_def loadState_def defaultStatus_def)

subsection \<open>The invariant of the outage status\<close>

text \<open>
  C4. The status the program starts with when there is no state file satisfies the invariant,
  and every scheduled task preserves it: \<open>outageStartTime\<close> is set exactly when
  \<open>isSystemDown\<close> is, and \<open>urgentAlertSent\<close> holds only when the system is down and the flag
  was set 15 minutes (900000 ms) or more after \<open>outageStartTime\<close>.
\<close>

theorem status_invariant_preserved:
  "statusInvariant (status (loadState None)) None
   \<and> (statusInvariant (status (state w)) u \<longrightarrow>
        statusInvariant (status (state (fst (step e w)))) (urgentSetAt e w u))"
proof -
  have init: "statusInvariant (status (loadState None)) None"
    by (simp add: statusInvariant_def loadState_def defaultStatus_def)
  have pres: "statusInvariant (status (state (fst (step e w)))) (urgentSetAt e w u)"
    if inv: "statusInvariant (status (state w)) u"
  proof (cases e)
    case (EveryMinute now)
    with inv show ?thesis
      by (auto simp: statusInvariant_def urgentSetAt_def checkUrgent_eq)
  next
    case (Hourly api now)
    show ?thesis
    proof (cases "getHours now < CHECK_HOUR_START \<or> CHECK_HOUR_END < getHours now")
      case True
      with inv Hourly show ?thesis
        by (auto simp: statusInvariant_def urgentSetAt_def hourly_out_of_window)
    next
      case False
      then have "CHECK_HOUR_START \<le> getHours now" "getHours now \<le> CHECK_HOUR_END" by auto
      from hourly_status_in_window[OF this, of api w] inv Hourly show ?thesis
        by (auto simp: statusInvariant_def urgentSetAt_def)
    qed
  next
    case (DailyEvening api dd now)
    with inv show ?thesis
      by (auto simp: statusInvariant_def urgentSetAt_def daily_status)
  qed
  from init pres show ?thesis by blast
qed

theorem status_invariant_preserved_witness:
  "statusInvariant (status (state (downSince 0 False))) None
   \<and> urgentAlertSent (status (state (fst (step (EveryMinute (noon 900000)) (downSince 0 False)))))
   \<and> statusInvariant (status (state (fst (step (EveryMinute (noon 900000)) (downSince 0 False)))))
        (Some 900000)"
  using status_invariant_preserved[of "downSince 0 False" None "EveryMinute (noon 900000)"]
  by (simp add: statusInvariant_def urgentSetAt_def checkUrgent_eq downSince_def noon_def)

subsection \<open>The telemetry cache\<close>

lemma getGrowattData_hit:
  assumes "\<not> forceNew" "d = localDay now" "cached (apiCache w) = Some snap"
    "getTime now - timestamp (apiCache w) < 120000"
  shows "getGrowattData api now forceNew d w = (Inr snap, w)"
  using assms by (simp add: getGrowattData_def)

lemma getGrowattData_live:
  assumes "forceNew \<or> d \<noteq> localDay now \<or> cached (apiCache w) = None \<or>
     120000 \<le> getTime now - timestamp (apiCache w)"
  shows "getGrowattData api now forceNew d w = liveFetch api now (d = localDay now) d w"
  using assms by (auto simp: getGrowattData_def Let_def split: option.splits)

lemma getGrowattData_cache_change:
  assumes "apiCache (snd (getGrowattData api now forceNew d w)) \<noteq> apiCache w"
  shows "\<exists>new. api d = Some new \<and> d = localDay now \<and>
     getGrowattData api now forceNew d w =
       (Inr new, w\<lparr>apiCalls := apiCalls w @ [d],
                   apiCache := \<lparr>cached = Some new, timestamp = getTime now\<rparr>\<rparr>)"
  using assms
  by (auto simp: getGrowattData_def liveFetch_def Let_def split: option.splits if_splits)

text \<open>
  C7. A fetch that is not forced, for today, with a cached snapshot stamped less than 120000 ms
  ago, returns the cached snapshot and leaves the program as it is: no query goes to the
  vendor. A live fetch that fails returns the connectivity error and only records the query:
  the cache is as before, so a later fetch inside the 120 seconds of its stamp still returns
  the cached snapshot. Whenever a fetch changes the cache, the vendor answered a live query
  for today, and the cache holds that answer stamped with the clock.
\<close>

theorem cache_hit_and_failed_fetch:
  "(\<not> forceNew \<and> d = localDay now \<and> cached (apiCache w) = Some snap \<and>
      getTime now - timestamp (apiCache w) < 120000 \<longrightarrow>
        getGrowattData api now forceNew d w = (Inr snap, w))
   \<and> (api d = None \<and>
       (forceNew \<or> d \<noteq> localDay now \<or> cached (apiCache w) = None \<or>
        120000 \<le> getTime now - timestamp (apiCache w)) \<longrightarrow>
        getGrowattData api now forceNew d w =
          (Inl ConnectivityError, w\<lparr>apiCalls := apiCalls w @ [d]\<rparr>) \<and>
        (cached (apiCache w) = Some snap \<and> getTime later - timestamp (apiCache w) < 120000 \<longrightarrow>
           getGrowattData api' later False (localDay later) (snd (getGrowattData api now forceNew d w))
             = (Inr snap, snd (getGrowattData api now forceNew d w))))
   \<and> (apiCache (snd (getGrowattData api now forceNew d w)) \<noteq> apiCache w \<longrightarrow>
        (\<exists>new. api d = Some new \<and> d = localDay now \<and>
           getGrowattData api now forceNew d w =
             (Inr new, w\<lparr>apiCalls := apiCalls w @ [d],
                         apiCache := \<lparr>cached = Some new, timestamp = getTime now\<rparr>\<rparr>)))"
proof -
  have a: "getGrowattData api now forceNew d w = (Inr snap, w)"
    if "\<not> forceNew \<and> d = localDay now \<and> cached (apiCache w) = Some snap \<and>
      getTime now - timestamp (apiCache w) < 120000"
    using that by (simp add: getGrowattData_hit)
  have b: "getGrowattData api now forceNew d w =
          (Inl ConnectivityError, w\<lparr>apiCalls := apiCalls w @ [d]\<rparr>)"
    if "api d = None \<and>
       (forceNew \<or> d \<noteq> localDay now \<or> cached (apiCache w) = None \<or>
        120000 \<le> getTime now - timestamp (apiCache w))"
    using that getGrowattData_live[of forceNew d now w api] by (simp add: liveFetch_def)
  have c: "getGrowattData api' later False (localDay later) (w\<lparr>apiCalls := apiCalls w @ [d]\<rparr>)
             = (Inr snap, w\<lparr>apiCalls := apiCalls w @ [d]\<rparr>)"
    if "cached (apiCache w) = Some snap \<and> getTime later - timestamp (apiCache w) < 120000"
    using that by (simp add: getGrowattData_hit)
  show ?thesis
  proof (intro conjI)
    show "\<not> forceNew \<and> d = localDay now \<and> cached (apiCache w) = Some snap \<and>
      getTime now - timestamp (apiCache w) < 120000 \<longrightarrow>
        getGrowattData api now forceNew d w = (Inr snap, w)"
      using a by blast
    show "api d = None \<and>
       (forceNew \<or> d \<noteq> localDay now \<or> cached (apiCache w) = None \<or>
        120000 \<le> getTime now - timestamp (apiCache w)) \<longrightarrow>
        getGrowattData api now forceNew d w =
          (Inl ConnectivityError, w\<lparr>apiCalls := apiCalls w @ [d]\<rparr>) \<and>
        (cached (apiCache w) = Some snap \<and> getTime later - timestamp (apiCache w) < 120000 \<longrightarrow>
           getGrowattData api' later False (localDay later) (snd (getGrowattData api now forceNew d w))
             = (Inr snap, snd (getGrowattData api now forceNew d w)))"
    proof
      assume h: "api d = None \<and>
       (forceNew \<or> d \<noteq> localDay now \<or> cached (apiCache w) = None \<or>
        120000 \<le> getTime now - timestamp (apiCache w))"
      show "getGrowattData api now forceNew d w =
          (Inl ConnectivityError, w\<lparr>apiCalls := apiCalls w @ [d]\<rparr>) \<and>
        (cached (apiCache w) = Some snap \<and> getTime later - timestamp (apiCache w) < 120000 \<longrightarrow>
           getGrowattData api' later False (localDay later) (snd (getGrowattData api now forceNew d w))
             = (Inr snap, snd (getGrowattData api now forceNew d w)))"
        unfolding b[OF h] using c by simp
    qed
    show "apiCache (snd (getGrowattData api now forceNew d w)) \<noteq> apiCache w \<longrightarrow>
        (\<exists>new. api d = Some new \<and> d = localDay now \<and>
           getGrowattData api now forceNew d w =
             (Inr new, w\<lparr>apiCalls := apiCalls w @ [d],
                         apiCache := \<lparr>cached = Some new, timestamp = getTime now\<rparr>\<rparr>))"
      using getGrowattData_cache_change[of api now forceNew d w] by blast
  qed
qed

theorem cache_hit_and_failed_fetch_witness:
  "getGrowattData (\<lambda>d. None) (noon 60000) False (localDay (noon 60000))
       (cachedAt 0 (sampleSnapshot 1500 35 0 950))
     = (Inr (sampleSnapshot 1500 35 0 950), cachedAt 0 (sampleSnapshot 1500 35 0 950))
   \<and> getGrowattData (\<lambda>d. None) (noon 60000) True (localDay (noon 60000))
       (cachedAt 0 (sampleSnapshot 1500 35 0 950))
     = (Inl ConnectivityError,
        (cachedAt 0 (sampleSnapshot 1500 35 0 950))\<lparr>apiCalls := [localDay (noon 60000)]\<rparr>)
   \<and> getGrowattData (\<lambda>d. None) (noon 119999) False (localDay (noon 119999))
       (snd (getGrowattData (\<lambda>d. None) (noon 60000) True (localDay (noon 60000))
          (cachedAt 0 (sampleSnapshot 1500 35 0 950))))
     = (Inr (sampleSnapshot 1500 35 0 950),
        (cachedAt 0 (sampleSnapshot 1500 35 0 950))\<lparr>apiCalls := [localDay (noon 60000)]\<rparr>)
   \<and> apiCache (snd (getGrowattData (\<lambda>d. Some (sampleSnapshot 0 35 0 950)) (noon 200000) False
          (localDay (noon 200000)) (cachedAt 0 (sampleSnapshot 1500 35 0 950))))
     = \<lparr>cached = Some (sampleSnapshot 0 35 0 950), timestamp = 200000\<rparr>"
  using cache_hit_and_failed_fetch[of False "localDay (noon 60000)" "noon 60000"
      "cachedAt 0 (sampleSnapshot 1500 35 0 950)" "sampleSnapshot 1500 35 0 950" "\<lambda>d. None"
      "noon 119999" "\<lambda>d. None"]
    cache_hit_and_failed_fetch[of True "localDay (noon 60000)" "noon 60000"
      "cachedAt 0 (sampleSnapshot 1500 35 0 950)" "sampleSnapshot 1500 35 0 950" "\<lambda>d. None"
      "noon 119999" "\<lambda>d. None"]
    cache_hit_and_failed_fetch[of False "localDay (noon 200000)" "noon 200000"
      "cachedAt 0 (sampleSnapshot 1500 35 0 950)" "sampleSnapshot 1500 35 0 950"
      "\<lambda>d. Some (sampleSnapshot 0 35 0 950)" "noon 119999" "\<lambda>d. None"]
  by (simp add: cachedAt_def noon_def initialWorld_def getGrowattData_def liveFetch_def)

subsection \<open>Milestones\<close>

lemma milestones_append [simp]: "milestones (a @ b) = milestones a @ milestones b"
  by (induction a rule: milestones.induct) simp_all

lemma next_step_bounds:
  fixes e :: real
  shows "e < of_int \<lfloor>e / MILESTONE_STEP_KWH\<rfloor> * MILESTONE_STEP_KWH + MILESTONE_STEP_KWH"
    and "of_int \<lfloor>e / MILESTONE_STEP_KWH\<rfloor> * MILESTONE_STEP_KWH + MILESTONE_STEP_KWH \<le> e + MILESTONE_STEP_KWH"
proof -
  have "e / 1000 < of_int \<lfloor>e / 1000\<rfloor> + 1" by linarith
  then show "e < of_int \<lfloor>e / MILESTONE_STEP_KWH\<rfloor> * MILESTONE_STEP_KWH + MILESTONE_STEP_KWH"
    unfolding MILESTONE_STEP_KWH_def by linarith
  have "of_int \<lfloor>e / 1000\<rfloor> \<le> e / 1000" by linarith
  then show "of_int \<lfloor>e / MILESTONE_STEP_KWH\<rfloor> * MILESTONE_STEP_KWH + MILESTONE_STEP_KWH \<le> e + MILESTONE_STEP_KWH"
    unfolding MILESTONE_STEP_KWH_def by linarith
qed

lemma milestoneCheck_cases:
  "milestoneCheck lifetime s =
     (if \<exists>e. lifetime = Some e \<and> nextMilestoneKwh (stats s) \<le> e
      then (s\<lparr>stats := (stats s)\<lparr>nextMilestoneKwh :=
               of_int \<lfloor>the lifetime / MILESTONE_STEP_KWH\<rfloor> * MILESTONE_STEP_KWH + MILESTONE_STEP_KWH\<rparr>\<rparr>,
            [MILESTONE_MESSAGE (nextMilestoneKwh (stats s))])
      else (s, []))"
  by (auto simp: milestoneCheck_def split: option.splits)

lemma other_checks_milestone:
  "bestDayCheck now today s = (s', out) \<Longrightarrow>
     nextMilestoneKwh (stats s') = nextMilestoneKwh (stats s) \<and> milestones out = []"
  "cleaningCheck dd now s = (s', out) \<Longrightarrow>
     nextMilestoneKwh (stats s') = nextMilestoneKwh (stats s) \<and> milestones out = []"
  "livenessCheck now h s = (s', out) \<Longrightarrow>
     nextMilestoneKwh (stats s') = nextMilestoneKwh (stats s) \<and> milestones out = []"
  "tempCheck now c s = (s', out) \<Longrightarrow>
     nextMilestoneKwh (stats s') = nextMilestoneKwh (stats s) \<and> milestones out = []"
  "outageCheck now watts s = (s', out) \<Longrightarrow>
     nextMilestoneKwh (stats s') = nextMilestoneKwh (stats s) \<and> milestones out = []"
  by (auto simp: bestDayCheck_def cleaningCheck_def livenessCheck_def tempCheck_def outageCheck_def
      split: option.splits if_splits)

lemma daily_milestone:
  assumes "api (localDay now) = Some snap" "dailyReadings snap = Inr (today, lifetime)"
  shows "nextMilestoneKwh (stats (state (fst (runDailyEveningChecks api dd now w)))) =
           nextMilestoneKwh (stats (fst (milestoneCheck lifetime (state w))))
         \<and> milestones (snd (runDailyEveningChecks api dd now w)) =
           milestones (snd (milestoneCheck lifetime (state w)))"
proof -
  obtain s1 a1 where b: "bestDayCheck now today (state w) = (s1, a1)"
    by (cases "bestDayCheck now today (state w)") auto
  obtain s2 a2 where m: "milestoneCheck lifetime s1 = (s2, a2)"
    by (cases "milestoneCheck lifetime s1") auto
  obtain s3 a3 where c: "cleaningCheck dd now s2 = (s3, a3)"
    by (cases "cleaningCheck dd now s2") auto
  have run: "runDailyEveningChecks api dd now w =
     (w\<lparr>state := s3, apiCache := \<lparr>cached = Some snap, timestamp = getTime now\<rparr>,
        apiCalls := apiCalls w @ [localDay now]\<rparr>, a1 @ a2 @ a3)"
    using daily_ok[of api now snap today lifetime w s1 a1 s2 a2 dd s3 a3] assms b m c by simp
  have n1: "nextMilestoneKwh (stats s1) = nextMilestoneKwh (stats (state w))" "milestones a1 = []"
    using other_checks_milestone(1)[OF b] by simp_all
  have n3: "nextMilestoneKwh (stats s3) = nextMilestoneKwh (stats s2)" "milestones a3 = []"
    using other_checks_milestone(2)[OF c] by simp_all
  from m n1 have "nextMilestoneKwh (stats s2) = nextMilestoneKwh (stats (fst (milestoneCheck lifetime (state w))))"
    "milestones a2 = milestones (snd (milestoneCheck lifetime (state w)))"
    by (auto simp: milestoneCheck_cases split: if_splits)
  with n1 n3 show ?thesis unfolding run by simp
qed

lemma step_milestone:
  "milestones (snd (step e w)) = [] \<and>
     nextMilestoneKwh (stats (state (fst (step e w)))) = nextMilestoneKwh (stats (state w))
   \<or> milestones (snd (step e w)) = [nextMilestoneKwh (stats (state w))] \<and>
     nextMilestoneKwh (stats (state w)) < nextMilestoneKwh (stats (state (fst (step e w))))"
proof (cases e)
  case (EveryMinute now)
  then show ?thesis by (simp add: checkUrgent_eq)
next
  case (Hourly api now)
  show ?thesis
  proof (cases "getHours now < CHECK_HOUR_START \<or> CHECK_HOUR_END < getHours now")
    case True
    with Hourly show ?thesis by (simp add: hourly_out_of_window)
  next
    case False
    then have "CHECK_HOUR_START \<le> getHours now" "getHours now \<le> CHECK_HOUR_END" by auto
    then show ?thesis
    proof (cases rule: hourly_cases[where api=api and w=w])
      case failed
      with Hourly show ?thesis by simp
    next
      case (ok snap watts temp lastUpdate s1 a1 s2 a2 s3 a3)
      with Hourly other_checks_milestone(3)[OF ok(3)] other_checks_milestone(4)[OF ok(4)]
        other_checks_milestone(5)[OF ok(5)] show ?thesis by simp
    qed
  qed
next
  case (DailyEvening api dd now)
  show ?thesis
  proof (cases rule: daily_cases[of api dd now w])
    case failed
    with DailyEvening show ?thesis by simp
  next
    case (ok snap today lifetime s1 a1 s2 a2 s3 a3)
    from daily_milestone[of api now snap today lifetime dd w] ok(1,2) DailyEvening
    show ?thesis
      using next_step_bounds(1)[of "the lifetime"]
      by (auto simp: milestoneCheck_cases split: if_splits)
  qed
qed

lemma run_milestones:
  "sorted_wrt (<) (milestones (snd (run es w))) \<and>
   (\<forall>m \<in> set (milestones (snd (run es w))). nextMilestoneKwh (stats (state w)) \<le> m)"
proof (induction es arbitrary: w)
  case Nil
  show ?case by simp
next
  case (Cons e es)
  obtain w1 out where s: "step e w = (w1, out)" by (cases "step e w") auto
  obtain w2 rest where r: "run es w1 = (w2, rest)" by (cases "run es w1") auto
  from Cons.IH[of w1] r have ih: "sorted_wrt (<) (milestones rest)"
    "\<forall>m \<in> set (milestones rest). nextMilestoneKwh (stats (state w1)) \<le> m" by simp_all
  from step_milestone[of e w] s
  have "milestones out = [] \<and> nextMilestoneKwh (stats (state w1)) = nextMilestoneKwh (stats (state w))
    \<or> milestones out = [nextMilestoneKwh (stats (state w))] \<and>
      nextMilestoneKwh (stats (state w)) < nextMilestoneKwh (stats (state w1))" by simp
  with ih show ?case using s r by (auto simp: sorted_wrt_append)
qed

text \<open>
  C8. A daily evaluation whose snapshot gives the lifetime total \<open>e\<close>: when \<open>e\<close> has reached
  \<open>nextMilestoneKwh\<close>, one milestone message is sent, for that threshold, and
  \<open>nextMilestoneKwh\<close> becomes the next multiple of 1000 above \<open>e\<close> (more than \<open>e\<close>, at most
  \<open>e + 1000\<close>); when it has not, none is sent and the threshold stays. Over any run of
  scheduled tasks the thresholds of the milestone messages sent increase strictly, so no
  threshold is announced twice. With the threshold 1000 and the total 1050 the message for
  1000 is sent once and the threshold becomes 2000.
\<close>

theorem milestone_fires_once_and_advances:
  "(api (localDay now) = Some snap \<and> dailyReadings snap = Inr (today, Some e) \<longrightarrow>
      (nextMilestoneKwh (stats (state w)) \<le> e \<longrightarrow>
         milestones (snd (runDailyEveningChecks api dd now w)) = [nextMilestoneKwh (stats (state w))] \<and>
         nextMilestoneKwh (stats (state (fst (runDailyEveningChecks api dd now w)))) =
           of_int \<lfloor>e / 1000\<rfloor> * 1000 + 1000 \<and>
         e < nextMilestoneKwh (stats (state (fst (runDailyEveningChecks api dd now w)))) \<and>
         nextMilestoneKwh (stats (state (fst (runDailyEveningChecks api dd now w)))) \<le> e + 1000) \<and>
      (e < nextMilestoneKwh (stats (state w)) \<longrightarrow>
         milestones (snd (runDailyEveningChecks api dd now w)) = [] \<and>
         nextMilestoneKwh (stats (state (fst (runDailyEveningChecks api dd now w)))) =
           nextMilestoneKwh (stats (state w))))
   \<and> sorted_wrt (<) (milestones (snd (run es w)))
   \<and> (\<forall>m \<in> set (milestones (snd (run es w))). nextMilestoneKwh (stats (state w)) \<le> m)"
proof -
  have one: "(nextMilestoneKwh (stats (state w)) \<le> e \<longrightarrow>
         milestones (snd (runDailyEveningChecks api dd now w)) = [nextMilestoneKwh (stats (state w))] \<and>
         nextMilestoneKwh (stats (state (fst (runDailyEveningChecks api dd now w)))) =
           of_int \<lfloor>e / 1000\<rfloor> * 1000 + 1000 \<and>
         e < nextMilestoneKwh (stats (state (fst (runDailyEveningChecks api dd now w)))) \<and>
         nextMilestoneKwh (stats (state (fst (runDailyEveningChecks api dd now w)))) \<le> e + 1000) \<and>
      (e < nextMilestoneKwh (stats (state w)) \<longrightarrow>
         milestones (snd (runDailyEveningChecks api dd now w)) = [] \<and>
         nextMilestoneKwh (stats (state (fst (runDailyEveningChecks api dd now w)))) =
           nextMilestoneKwh (stats (state w)))"
    if a: "api (localDay now) = Some snap \<and> dailyReadings snap = Inr (today, Some e)"
    using daily_milestone[of api now snap today "Some e" dd w] a
      next_step_bounds[of e]
    by (auto simp: milestoneCheck_cases MILESTONE_STEP_KWH_def)
  from one run_milestones[of es w] show ?thesis by blast
qed

theorem milestone_fires_once_and_advances_witness:
  "dailyReadings (sampleSnapshot 1500 35 0 1050) = Inr (Some 12, Some 1050)
   \<and> nextMilestoneKwh (stats (state (initialWorld None))) = 1000
   \<and> milestones (snd (runDailyEveningChecks (\<lambda>d. Some (sampleSnapshot 1500 35 0 1050)) wholeDays
        (evening 0) (initialWorld None))) = [1000]
   \<and> nextMilestoneKwh (stats (state (fst (runDailyEveningChecks
        (\<lambda>d. Some (sampleSnapshot 1500 35 0 1050)) wholeDays (evening 0) (initialWorld None))))) = 2000
   \<and> milestones (snd (run [DailyEvening (\<lambda>d. Some (sampleSnapshot 1500 35 0 1050)) wholeDays (evening 0),
        DailyEvening (\<lambda>d. Some (sampleSnapshot 1500 35 0 1050)) wholeDays (evening 86400000)]
        (initialWorld None))) = [1000]"
proof -
  have "milestones (snd (run [DailyEvening (\<lambda>d. Some (sampleSnapshot 1500 35 0 1050)) wholeDays (evening 0),
        DailyEvening (\<lambda>d. Some (sampleSnapshot 1500 35 0 1050)) wholeDays (evening 86400000)]
        (initialWorld None))) = [1000]"
    by (simp add: runDailyEveningChecks_def getGrowattData_def liveFetch_def sample_readings
        bestDayCheck_def milestoneCheck_def cleaningCheck_def evening_def initialWorld_def
        loadState_def defaultStats_def defaultConfig_def MILESTONE_STEP_KWH_def wholeDays_def
        trunc_quot_def DEFAULT_CLEANING_WEEKS_def)
  then show ?thesis
    using milestone_fires_once_and_advances[of "\<lambda>d. Some (sampleSnapshot 1500 35 0 1050)"
      "evening 0" "sampleSnapshot 1500 35 0 1050" "Some 12" 1050 "initialWorld None" wholeDays
      "[DailyEvening (\<lambda>d. Some (sampleSnapshot 1500 35 0 1050)) wholeDays (evening 0),
        DailyEvening (\<lambda>d. Some (sampleSnapshot 1500 35 0 1050)) wholeDays (evening 86400000)]"]
    by (simp add: sample_readings initialWorld_def loadState_def defaultStats_def
        MILESTONE_STEP_KWH_def)
qed

subsection \<open>The cooldown of the temperature and liveness alerts\<close>

lemma tempCheck_cases:
  "tempCheck now temp s =
     (if \<exists>c. temp = Some c \<and> tempThreshold (config s) \<le> c \<and>
           (lastTempAlert (stats s) = None \<or>
            (\<exists>l. lastTempAlert (stats s) = Some l \<and> 21600000 \<le> getTime now - l))
      then (s\<lparr>stats := (stats s)\<lparr>lastTempAlert := Some (getTime now)\<rparr>\<rparr>,
            [TEMP_ALERT (the temp) (tempThreshold (config s))])
      else (s, []))"
  by (auto simp: tempCheck_def hours_ge_cooldown split: option.splits)

lemma livenessCheck_cases:
  "livenessCheck now (map_option (differenceInHours (getTime now)) lastUpdate) s =
     (if \<exists>u. lastUpdate = Some u \<and> 7200000 \<le> getTime now - u \<and>
           (lastLivenessAlert (stats s) = None \<or>
            (\<exists>l. lastLivenessAlert (stats s) = Some l \<and> 21600000 \<le> getTime now - l))
      then (s\<lparr>stats := (stats s)\<lparr>lastLivenessAlert := Some (getTime now)\<rparr>\<rparr>,
            [LIVENESS_ALERT (differenceInHours (getTime now) (the lastUpdate))])
      else (s, []))"
  by (auto simp: livenessCheck_def hours_ge_cooldown hours_ge_liveness LIVENESS_CHECK_HOURS_def
      split: option.splits)

lemma hourly_temp:
  assumes "CHECK_HOUR_START \<le> getHours now" "getHours now \<le> CHECK_HOUR_END"
    and "api (localDay now) = Some snap"
    and "hourlyReadings snap = Inr (watts, temp, lastUpdate)"
  shows "filter isTempAlert (snd (runHourlyChecks api now w)) = snd (tempCheck now temp (state w))"
    and "lastTempAlert (stats (state (fst (runHourlyChecks api now w)))) =
         lastTempAlert (stats (fst (tempCheck now temp (state w))))"
    and "config (state (fst (runHourlyChecks api now w))) = config (state w)"
    and "filter isLivenessAlert (snd (runHourlyChecks api now w)) =
         snd (livenessCheck now (map_option (differenceInHours (getTime now)) lastUpdate) (state w))"
    and "lastLivenessAlert (stats (state (fst (runHourlyChecks api now w)))) =
         lastLivenessAlert (stats (fst (livenessCheck now
            (map_option (differenceInHours (getTime now)) lastUpdate) (state w))))"
proof -
  obtain s1 a1 where l: "livenessCheck now (map_option (differenceInHours (getTime now)) lastUpdate) (state w) = (s1, a1)"
    by (cases "livenessCheck now (map_option (differenceInHours (getTime now)) lastUpdate) (state w)") auto
  obtain s2 a2 where t: "tempCheck now temp s1 = (s2, a2)" by (cases "tempCheck now temp s1") auto
  obtain s3 a3 where ou: "outageCheck now watts s2 = (s3, a3)"
    by (cases "outageCheck now watts s2") auto
  have run: "runHourlyChecks api now w =
     (w\<lparr>state := s3, apiCache := \<lparr>cached = Some snap, timestamp = getTime now\<rparr>,
        apiCalls := apiCalls w @ [localDay now]\<rparr>, a1 @ a2 @ a3)"
    using hourly_ok[of now api snap watts temp lastUpdate w s1 a1 s2 a2 s3 a3] assms l t ou by simp
  have l': "config s1 = config (state w)" "lastTempAlert (stats s1) = lastTempAlert (stats (state w))"
    "filter isTempAlert a1 = []" "filter isLivenessAlert a1 = a1"
    using l by (auto simp: livenessCheck_cases split: if_splits)
  have t': "config s2 = config s1" "lastLivenessAlert (stats s2) = lastLivenessAlert (stats s1)"
    "filter isTempAlert a2 = a2" "filter isLivenessAlert a2 = []"
    using t by (auto simp: tempCheck_cases split: if_splits)
  have o': "config s3 = config s2" "stats s3 = stats s2"
    "filter isTempAlert a3 = []" "filter isLivenessAlert a3 = []"
    using ou by (auto simp: outageCheck_cases split: if_splits)
  have t2: "a2 = snd (tempCheck now temp (state w))"
    "lastTempAlert (stats s2) = lastTempAlert (stats (fst (tempCheck now temp (state w))))"
    using t l' by (auto simp: tempCheck_cases split: if_splits)
  show "filter isTempAlert (snd (runHourlyChecks api now w)) = snd (tempCheck now temp (state w))"
    unfolding run using l' t' o' t2 by simp
  show "lastTempAlert (stats (state (fst (runHourlyChecks api now w)))) =
         lastTempAlert (stats (fst (tempCheck now temp (state w))))"
    unfolding run using o' t2 by simp
  show "config (state (fst (runHourlyChecks api now w))) = config (state w)"
    unfolding run using l' t' o' by simp
  show "filter isLivenessAlert (snd (runHourlyChecks api now w)) =
         snd (livenessCheck now (map_option (differenceInHours (getTime now)) lastUpdate) (state w))"
    unfolding run using l l' t' o' by simp
  show "lastLivenessAlert (stats (state (fst (runHourlyChecks api now w)))) =
         lastLivenessAlert (stats (fst (livenessCheck now
            (map_option (differenceInHours (getTime now)) lastUpdate) (state w))))"
    unfolding run using l t' o' by simp
qed

text \<open>
  C9. Two hourly ticks inside the window, the second run on the state the first leaves, both
  with a temperature at or above the threshold, the first not held back by an earlier alert
  (none recorded, or one 6 hours or more before it): the first stamps \<open>lastTempAlert\<close> with
  its clock; if the second comes less than 6 hours (21600000 ms) after that stamp, the two
  ticks send one temperature alert between them and the stamp stays; if it comes 6 hours or
  more after, each sends one and the second stamps its own clock. The same for the liveness
  alert of two ticks whose last update is 2 hours (7200000 ms) or more old.
\<close>

theorem alert_cooldown:
  assumes "CHECK_HOUR_START \<le> getHours now1" "getHours now1 \<le> CHECK_HOUR_END"
    and "CHECK_HOUR_START \<le> getHours now2" "getHours now2 \<le> CHECK_HOUR_END"
    and "api1 (localDay now1) = Some snap1"
    and "hourlyReadings snap1 = Inr (watts1, temp1, lastUpdate1)"
    and "api2 (localDay now2) = Some snap2"
    and "hourlyReadings snap2 = Inr (watts2, temp2, lastUpdate2)"
    and "runHourlyChecks api1 now1 w = (w1, out1)"
    and "runHourlyChecks api2 now2 w1 = (w2, out2)"
  shows
   "(temp1 = Some c1 \<and> temp2 = Some c2 \<and>
     tempThreshold (config (state w)) \<le> c1 \<and> tempThreshold (config (state w)) \<le> c2 \<and>
     (lastTempAlert (stats (state w)) = None \<or>
      (\<exists>l. lastTempAlert (stats (state w)) = Some l \<and> 6 * 3600000 \<le> getTime now1 - l)) \<longrightarrow>
       lastTempAlert (stats (state w1)) = Some (getTime now1) \<and>
       (getTime now2 - getTime now1 < 6 * 3600000 \<longrightarrow>
          filter isTempAlert (out1 @ out2) = [TEMP_ALERT c1 (tempThreshold (config (state w)))] \<and>
          lastTempAlert (stats (state w2)) = Some (getTime now1)) \<and>
       (6 * 3600000 \<le> getTime now2 - getTime now1 \<longrightarrow>
          filter isTempAlert out1 = [TEMP_ALERT c1 (tempThreshold (config (state w)))] \<and>
          filter isTempAlert out2 = [TEMP_ALERT c2 (tempThreshold (config (state w)))] \<and>
          lastTempAlert (stats (state w2)) = Some (getTime now2)))
    \<and>
    (lastUpdate1 = Some u1 \<and> lastUpdate2 = Some u2 \<and>
     2 * 3600000 \<le> getTime now1 - u1 \<and> 2 * 3600000 \<le> getTime now2 - u2 \<and>
     (lastLivenessAlert (stats (state w)) = None \<or>
      (\<exists>l. lastLivenessAlert (stats (state w)) = Some l \<and> 6 * 3600000 \<le> getTime now1 - l)) \<longrightarrow>
       lastLivenessAlert (stats (state w1)) = Some (getTime now1) \<and>
       (getTime now2 - getTime now1 < 6 * 3600000 \<longrightarrow>
          filter isLivenessAlert (out1 @ out2) =
            [LIVENESS_ALERT (differenceInHours (getTime now1) u1)] \<and>
          lastLivenessAlert (stats (state w2)) = Some (getTime now1)) \<and>
       (6 * 3600000 \<le> getTime now2 - getTime now1 \<longrightarrow>
          filter isLivenessAlert out1 = [LIVENESS_ALERT (differenceInHours (getTime now1) u1)] \<and>
          filter isLivenessAlert out2 = [LIVENESS_ALERT (differenceInHours (getTime now2) u2)] \<and>
          lastLivenessAlert (stats (state w2)) = Some (getTime now2)))"
proof -
  note h1 = hourly_temp[of now1 api1 snap1 watts1 temp1 lastUpdate1 w, OF assms(1,2,5,6),
      unfolded assms(9), simplified]
  note h2 = hourly_temp[of now2 api2 snap2 watts2 temp2 lastUpdate2 w1, OF assms(3,4,7,8),
      unfolded assms(10), simplified]
  have temp: "lastTempAlert (stats (state w1)) = Some (getTime now1) \<and>
       (getTime now2 - getTime now1 < 6 * 3600000 \<longrightarrow>
          filter isTempAlert (out1 @ out2) = [TEMP_ALERT c1 (tempThreshold (config (state w)))] \<and>
          lastTempAlert (stats (state w2)) = Some (getTime now1)) \<and>
       (6 * 3600000 \<le> getTime now2 - getTime now1 \<longrightarrow>
          filter isTempAlert out1 = [TEMP_ALERT c1 (tempThreshold (config (state w)))] \<and>
          filter isTempAlert out2 = [TEMP_ALERT c2 (tempThreshold (config (state w)))] \<and>
          lastTempAlert (stats (state w2)) = Some (getTime now2))"
    if a: "temp1 = Some c1 \<and> temp2 = Some c2 \<and>
     tempThreshold (config (state w)) \<le> c1 \<and> tempThreshold (config (state w)) \<le> c2 \<and>
     (lastTempAlert (stats (state w)) = None \<or>
      (\<exists>l. lastTempAlert (stats (state w)) = Some l \<and> 6 * 3600000 \<le> getTime now1 - l))"
  proof -
    from a have first: "tempCheck now1 temp1 (state w) =
        ((state w)\<lparr>stats := (stats (state w))\<lparr>lastTempAlert := Some (getTime now1)\<rparr>\<rparr>,
         [TEMP_ALERT c1 (tempThreshold (config (state w)))])"
      by (auto simp: tempCheck_cases)
    with h1 have s1: "filter isTempAlert out1 = [TEMP_ALERT c1 (tempThreshold (config (state w)))]"
      "lastTempAlert (stats (state w1)) = Some (getTime now1)"
      "config (state w1) = config (state w)" by simp_all
    from a s1 have second: "tempCheck now2 temp2 (state w1) =
        (if 21600000 \<le> getTime now2 - getTime now1
         then ((state w1)\<lparr>stats := (stats (state w1))\<lparr>lastTempAlert := Some (getTime now2)\<rparr>\<rparr>,
               [TEMP_ALERT c2 (tempThreshold (config (state w)))])
         else (state w1, []))"
      by (auto simp: tempCheck_cases)
    with h2 s1 show ?thesis by auto
  qed
  have live: "lastLivenessAlert (stats (state w1)) = Some (getTime now1) \<and>
       (getTime now2 - getTime now1 < 6 * 3600000 \<longrightarrow>
          filter isLivenessAlert (out1 @ out2) =
            [LIVENESS_ALERT (differenceInHours (getTime now1) u1)] \<and>
          lastLivenessAlert (stats (state w2)) = Some (getTime now1)) \<and>
       (6 * 3600000 \<le> getTime now2 - getTime now1 \<longrightarrow>
          filter isLivenessAlert out1 = [LIVENESS_ALERT (differenceInHours (getTime now1) u1)] \<and>
          filter isLivenessAlert out2 = [LIVENESS_ALERT (differenceInHours (getTime now2) u2)] \<and>
          lastLivenessAlert (stats (state w2)) = Some (getTime now2))"
    if a: "lastUpdate1 = Some u1 \<and> lastUpdate2 = Some u2 \<and>
     2 * 3600000 \<le> getTime now1 - u1 \<and> 2 * 3600000 \<le> getTime now2 - u2 \<and>
     (lastLivenessAlert (stats (state w)) = None \<or>
      (\<exists>l. lastLivenessAlert (stats (state w)) = Some l \<and> 6 * 3600000 \<le> getTime now1 - l))"
  proof -
    from a have first: "livenessCheck now1 (map_option (differenceInHours (getTime now1)) lastUpdate1) (state w) =
        ((state w)\<lparr>stats := (stats (state w))\<lparr>lastLivenessAlert := Some (getTime now1)\<rparr>\<rparr>,
         [LIVENESS_ALERT (differenceInHours (getTime now1) u1)])"
      using livenessCheck_cases[of now1 lastUpdate1 "state w"] by auto
    with h1 have s1: "filter isLivenessAlert out1 = [LIVENESS_ALERT (differenceInHours (getTime now1) u1)]"
      "lastLivenessAlert (stats (state w1)) = Some (getTime now1)" by simp_all
    from a s1 have second: "livenessCheck now2 (map_option (differenceInHours (getTime now2)) lastUpdate2) (state w1) =
        (if 21600000 \<le> getTime now2 - getTime now1
         then ((state w1)\<lparr>stats := (stats (state w1))\<lparr>lastLivenessAlert := Some (getTime now2)\<rparr>\<rparr>,
               [LIVENESS_ALERT (differenceInHours (getTime now2) u2)])
         else (state w1, []))"
      using livenessCheck_cases[of now2 lastUpdate2 "state w1"] by auto
    with h2 s1 show ?thesis by auto
  qed
  from temp live show ?thesis by blast
qed

theorem alert_cooldown_witness:
  "filter isTempAlert (snd (hotTick 10000000 65 (initialWorld None)) @
      snd (hotTick 13600000 70 (fst (hotTick 10000000 65 (initialWorld None))))) = [TEMP_ALERT 65 60]
   \<and> filter isLivenessAlert (snd (hotTick 10000000 65 (initialWorld None)) @
      snd (hotTick 13600000 70 (fst (hotTick 10000000 65 (initialWorld None)))))
      = [LIVENESS_ALERT (differenceInHours 10000000 0)]
   \<and> filter isTempAlert (snd (hotTick 31600000 70 (fst (hotTick 10000000 65 (initialWorld None)))))
      = [TEMP_ALERT 70 60]
   \<and> filter isLivenessAlert (snd (hotTick 31600000 70 (fst (hotTick 10000000 65 (initialWorld None)))))
      = [LIVENESS_ALERT (differenceInHours 31600000 0)]
   \<and> lastTempAlert (stats (state (fst (hotTick 31600000 70
        (fst (hotTick 10000000 65 (initialWorld None))))))) = Some 31600000"
  using alert_cooldown[where ?now1.0 = "noon 10000000" and ?now2.0 = "noon 13600000"
      and ?api1.0 = "\<lambda>d. Some (sampleSnapshot 1500 65 0 950)"
      and ?api2.0 = "\<lambda>d. Some (sampleSnapshot 1500 70 0 950)"
      and ?snap1.0 = "sampleSnapshot 1500 65 0 950" and ?snap2.0 = "sampleSnapshot 1500 70 0 950"
      and ?watts1.0 = "Some 1500" and ?watts2.0 = "Some 1500"
      and ?temp1.0 = "Some 65" and ?temp2.0 = "Some 70"
      and ?lastUpdate1.0 = "Some 0" and ?lastUpdate2.0 = "Some 0"
      and w = "initialWorld None"
      and ?w1.0 = "fst (hotTick 10000000 65 (initialWorld None))"
      and ?out1.0 = "snd (hotTick 10000000 65 (initialWorld None))"
      and ?w2.0 = "fst (hotTick 13600000 70 (fst (hotTick 10000000 65 (initialWorld None))))"
      and ?out2.0 = "snd (hotTick 13600000 70 (fst (hotTick 10000000 65 (initialWorld None))))"
      and ?c1.0 = 65 and ?c2.0 = 70 and ?u1.0 = 0 and ?u2.0 = 0]
    alert_cooldown[where ?now1.0 = "noon 10000000" and ?now2.0 = "noon 31600000"
      and ?api1.0 = "\<lambda>d. Some (sampleSnapshot 1500 65 0 950)"
      and ?api2.0 = "\<lambda>d. Some (sampleSnapshot 1500 70 0 950)"
      and ?snap1.0 = "sampleSnapshot 1500 65 0 950" and ?snap2.0 = "sampleSnapshot 1500 70 0 950"
      and ?watts1.0 = "Some 1500" and ?watts2.0 = "Some 1500"
      and ?temp1.0 = "Some 65" and ?temp2.0 = "Some 70"
      and ?lastUpdate1.0 = "Some 0" and ?lastUpdate2.0 = "Some 0"
      and w = "initialWorld None"
      and ?w1.0 = "fst (hotTick 10000000 65 (initialWorld None))"
      and ?out1.0 = "snd (hotTick 10000000 65 (initialWorld None))"
      and ?w2.0 = "fst (hotTick 31600000 70 (fst (hotTick 10000000 65 (initialWorld None))))"
      and ?out2.0 = "snd (hotTick 31600000 70 (fst (hotTick 10000000 65 (initialWorld None))))"
      and ?c1.0 = 65 and ?c2.0 = 70 and ?u1.0 = 0 and ?u2.0 = 0]
  by (simp add: hotTick_def sample_readings noon_def CHECK_HOUR_START_def CHECK_HOUR_END_def
      initialWorld_def loadState_def defaultConfig_def defaultStats_def DEFAULT_TEMP_THRESHOLD_C_def)

subsection \<open>The days of a month and of a week\<close>

lemma nextDay_funpow:
  assumes "validDate d"
  shows "validDate ((nextDay ^^ k) d)" and "dayNumber ((nextDay ^^ k) d) = dayNumber d + int k"
proof -
  have "validDate ((nextDay ^^ k) d) \<and> dayNumber ((nextDay ^^ k) d) = dayNumber d + int k"
    using assms by (induction k) (simp_all add: nextDay_valid)
  then show "validDate ((nextDay ^^ k) d)" and "dayNumber ((nextDay ^^ k) d) = dayNumber d + int k"
    by simp_all
qed

lemma prevDay_funpow:
  assumes "validDate d"
  shows "validDate ((prevDay ^^ k) d)"
    and "dayNumber ((prevDay ^^ k) d) = dayNumber d - int k"
    and "(nextDay ^^ k) ((prevDay ^^ k) d) = d"
proof -
  have "validDate ((prevDay ^^ k) d) \<and> dayNumber ((prevDay ^^ k) d) = dayNumber d - int k
      \<and> (nextDay ^^ k) ((prevDay ^^ k) d) = d"
    using assms
  proof (induction k)
    case 0
    then show ?case by simp
  next
    case (Suc k)
    then have v: "validDate ((prevDay ^^ k) d)" by simp
    have "(nextDay ^^ Suc k) ((prevDay ^^ Suc k) d) = (nextDay ^^ k) (nextDay (prevDay ((prevDay ^^ k) d)))"
      by (simp add: funpow_swap1)
    also have "\<dots> = (nextDay ^^ k) ((prevDay ^^ k) d)" using v by (simp add: prevDay_valid)
    finally show ?case using Suc v by (simp add: prevDay_valid prevDay_dayNumber)
  qed
  then show "validDate ((prevDay ^^ k) d)"
    and "dayNumber ((prevDay ^^ k) d) = dayNumber d - int k"
    and "(nextDay ^^ k) ((prevDay ^^ k) d) = d" by simp_all
qed

lemma eachDayFrom_funpow:
  assumes "validDate s"
  shows "eachDayFrom s ((nextDay ^^ k) s) = map (\<lambda>i. (nextDay ^^ i) s) [0..<Suc k]"
  using assms
proof (induction k arbitrary: s)
  case 0
  have "eachDayFrom (nextDay s) s = []"
    using nextDay_valid(2)[OF 0] by (subst eachDayFrom.simps) simp
  then show ?case using 0 by (subst eachDayFrom.simps) simp
next
  case (Suc k)
  have e: "(nextDay ^^ Suc k) s = (nextDay ^^ k) (nextDay s)" by (simp add: funpow_swap1)
  have le: "dayNumber s \<le> dayNumber ((nextDay ^^ Suc k) s)"
    using nextDay_funpow(2)[OF Suc.prems, of "Suc k"] by simp
  have "eachDayFrom s ((nextDay ^^ Suc k) s) = s # eachDayFrom (nextDay s) ((nextDay ^^ k) (nextDay s))"
    using Suc.prems le by (subst eachDayFrom.simps) (simp add: funpow_swap1)
  also have "\<dots> = s # map (\<lambda>i. (nextDay ^^ i) (nextDay s)) [0..<Suc k]"
    using Suc.IH[of "nextDay s"] nextDay_valid(1)[OF Suc.prems] by simp
  also have "\<dots> = map (\<lambda>i. (nextDay ^^ i) s) [0..<Suc (Suc k)]"
    by (subst (2) map_upt_Suc) (simp add: funpow_swap1)
  finally show ?case .
qed

lemma month_days:
  assumes "validDate d"
  shows "eachDayOfInterval (startOfMonth d) (endOfMonth d) =
     map (\<lambda>k. d\<lparr>dayOfMonth := k\<rparr>) [1..<Suc (getDaysInMonth (year d) (month d))]"
proof -
  let ?n = "getDaysInMonth (year d) (month d)"
  have n: "1 \<le> ?n" using getDaysInMonth_bounds(1)[of "year d" "month d"] by arith
  have v: "validDate (startOfMonth d)" using assms n by (simp add: validDate_def startOfMonth_def)
  have step: "(nextDay ^^ i) (startOfMonth d) = d\<lparr>dayOfMonth := Suc i\<rparr>" if "i < ?n" for i
    using that
  proof (induction i)
    case 0
    show ?case by (simp add: startOfMonth_def)
  next
    case (Suc i)
    then have "(nextDay ^^ i) (startOfMonth d) = d\<lparr>dayOfMonth := Suc i\<rparr>" by simp
    then have "(nextDay ^^ Suc i) (startOfMonth d) = nextDay (d\<lparr>dayOfMonth := Suc i\<rparr>)"
      by simp
    also have "\<dots> = d\<lparr>dayOfMonth := Suc (Suc i)\<rparr>"
      using Suc.prems by (simp add: nextDay_def)
    finally show ?case .
  qed
  have "endOfMonth d = (nextDay ^^ (?n - 1)) (startOfMonth d)"
    using step[of "?n - 1"] n by (simp add: endOfMonth_def)
  then have "eachDayOfInterval (startOfMonth d) (endOfMonth d) =
      map (\<lambda>i. (nextDay ^^ i) (startOfMonth d)) [0..<Suc (?n - 1)]"
    using eachDayFrom_funpow[OF v, of "?n - 1"] by (simp add: eachDayOfInterval_def)
  also have "\<dots> = map (\<lambda>i. d\<lparr>dayOfMonth := Suc i\<rparr>) [0..<?n]"
    using n step by simp
  also have "\<dots> = map (\<lambda>k. d\<lparr>dayOfMonth := k\<rparr>) (map Suc [0..<?n])" by (simp add: comp_def)
  also have "map Suc [0..<?n] = [1..<Suc ?n]" by (simp only: map_Suc_upt One_nat_def)
  finally show ?thesis .
qed

lemma week_days:
  assumes "validDate d"
  shows "eachDayOfInterval (startOfWeek d 1) (endOfWeek d 1) =
           map (\<lambda>i. (nextDay ^^ i) (startOfWeek d 1)) [0..<7]"
    and "validDate (startOfWeek d 1)"
    and "getDay (startOfWeek d 1) = 1"
    and "d = (nextDay ^^ nat ((getDay d + 6) mod 7)) (startOfWeek d 1)"
proof -
  define n where "n = nat ((getDay d + 6) mod 7)"
  have day: "0 \<le> getDay d" "getDay d < 7" by (simp_all add: getDay_def)
  define k where "k = (getDay d + 6) mod 7"
  have k: "0 \<le> k" "k < 7" by (simp_all add: k_def)
  have nk: "int n = k" using k by (simp add: n_def k_def)
  have "(if getDay d < 1 then 7 else 0) + getDay d - 1 = k"
    using day unfolding k_def by (cases "getDay d < 1") (simp_all, presburger+)
  then have diff: "(if getDay d < 1 then 7 else 0) + getDay d - 1 = int n" using nk by simp
  have n6: "n \<le> 6" using k nk by arith
  have start: "startOfWeek d 1 = (prevDay ^^ n) d"
    using diff by (cases "n = 0") (simp_all add: startOfWeek_def addDays_def Let_def)
  have "(if getDay d < 1 then - 7 else 0) + 6 - (getDay d - 1) = int (6 - n)"
    using diff n6 by (simp split: if_splits)
  then have fin: "endOfWeek d 1 = (nextDay ^^ (6 - n)) d"
    by (simp add: endOfWeek_def addDays_def Let_def)
  show v: "validDate (startOfWeek d 1)" unfolding start by (rule prevDay_funpow(1)[OF assms])
  show bk: "d = (nextDay ^^ nat ((getDay d + 6) mod 7)) (startOfWeek d 1)"
    unfolding start n_def[symmetric] by (simp add: prevDay_funpow(3)[OF assms])
  have "endOfWeek d 1 = (nextDay ^^ (6 - n)) ((nextDay ^^ n) (startOfWeek d 1))"
    using fin bk by (simp add: n_def)
  also have "\<dots> = (nextDay ^^ 6) (startOfWeek d 1)"
    using n6 by (simp add: funpow_add[symmetric, unfolded comp_def, THEN fun_cong] del: funpow.simps)
  finally have "endOfWeek d 1 = (nextDay ^^ 6) (startOfWeek d 1)" .
  then show "eachDayOfInterval (startOfWeek d 1) (endOfWeek d 1) =
           map (\<lambda>i. (nextDay ^^ i) (startOfWeek d 1)) [0..<7]"
    using eachDayFrom_funpow[OF v, of 6] by (simp add: eachDayOfInterval_def)
  have "dayNumber (startOfWeek d 1) = dayNumber d - int n"
    unfolding start by (rule prevDay_funpow(2)[OF assms])
  then have "dayNumber (startOfWeek d 1) = dayNumber d - (dayNumber d + 6) mod 7"
    using nk by (simp add: k_def getDay_def mod_add_left_eq)
  then show "getDay (startOfWeek d 1) = 1"
    unfolding getDay_def by presburger
qed

subsection \<open>Period totals\<close>

lemma getDayTotal_eq:
  "getDayTotal api now d w =
     (case api d of None \<Rightarrow> Inl ConnectivityError | Some snap \<Rightarrow> dayFigure snap,
      snd (getGrowattData api now True d w))"
  by (simp add: getDayTotal_def getGrowattData_force liveFetch_def Let_def split: option.splits)

lemma sumDays_all:
  assumes "\<And>day. day \<in> set days \<Longrightarrow> \<exists>snap. api day = Some snap \<and> dayFigure snap = Inr (f day)"
  shows "fst (sumDays api now days subtotal w) = Inr (subtotal + sum_list (map f days))"
  using assms
proof (induction days arbitrary: subtotal w)
  case Nil
  show ?case by simp
next
  case (Cons day days)
  from Cons.prems[of day] obtain snap where s: "api day = Some snap" "dayFigure snap = Inr (f day)"
    by auto
  have "fst (sumDays api now (day # days) subtotal w) =
      fst (sumDays api now days (subtotal + f day) (snd (getGrowattData api now True day w)))"
    using s by (simp add: getDayTotal_eq)
  also have "\<dots> = Inr (subtotal + f day + sum_list (map f days))"
    using Cons.IH[of "subtotal + f day"] Cons.prems by simp
  finally show ?case by (simp add: add.assoc)
qed

lemma sumDays_fails:
  assumes "day \<in> set days" "fst (getDayTotal api now day w0) = Inl e"
  shows "\<exists>e'. fst (sumDays api now days subtotal w) = Inl e'"
  using assms(1)
proof (induction days arbitrary: subtotal w)
  case Nil
  then show ?case by simp
next
  case (Cons x days)
  show ?case
  proof (cases "fst (getDayTotal api now x w)")
    case (Inl e1)
    then show ?thesis by (cases "getDayTotal api now x w") auto
  next
    case (Inr v)
    have "x \<noteq> day"
    proof
      assume "x = day"
      with Inr assms(2) show False by (simp add: getDayTotal_eq)
    qed
    with Cons.prems have "day \<in> set days" by simp
    from Cons.IH[OF this] Inr show ?thesis by (cases "getDayTotal api now x w") auto
  qed
qed

lemma period_day:
  "fst (getPeriodTotal api now d Day w) =
     (case api d of None \<Rightarrow> Inl ConnectivityError | Some snap \<Rightarrow> dayFigure snap)"
  by (simp add: getPeriodTotal_def getDayTotal_eq)

lemma sum_of_days:
  assumes "\<forall>day \<in> set days. fst (getPeriodTotal api now day Day w) = Inr (f day)"
  shows "fst (sumDays api now days 0 w') = Inr (sum_list (map f days))"
proof -
  have "\<exists>snap. api day = Some snap \<and> dayFigure snap = Inr (f day)" if "day \<in> set days" for day
    using assms that by (auto simp: period_day split: option.splits)
  from sumDays_all[of days api f now 0 w', OF this] show ?thesis by simp
qed

lemma calendarMonth_set:
  assumes "validDate d"
  shows "distinct (calendarMonth d)"
    and "set (calendarMonth d) = {x. validDate x \<and> year x = year d \<and> month x = month d}"
proof -
  have inj: "inj_on (\<lambda>k. d\<lparr>dayOfMonth := k\<rparr>) A" for A
    by (rule inj_onI) (metis caldate.select_convs(3) caldate.surjective caldate.update_convs(3))
  show "distinct (calendarMonth d)"
    unfolding calendarMonth_def by (simp add: distinct_map inj)
  show "set (calendarMonth d) = {x. validDate x \<and> year x = year d \<and> month x = month d}"
  proof (intro set_eqI iffI)
    fix x assume "x \<in> set (calendarMonth d)"
    then show "x \<in> {x. validDate x \<and> year x = year d \<and> month x = month d}"
      using assms by (auto simp: calendarMonth_def validDate_def)
  next
    fix x assume "x \<in> {x. validDate x \<and> year x = year d \<and> month x = month d}"
    then have x: "validDate x" "year x = year d" "month x = month d" by simp_all
    then have "x = d\<lparr>dayOfMonth := dayOfMonth x\<rparr>" by simp
    moreover have "dayOfMonth x \<in> set [1..<Suc (getDaysInMonth (year d) (month d))]"
      using x by (auto simp: validDate_def)
    ultimately show "x \<in> set (calendarMonth d)"
      unfolding calendarMonth_def set_map by (rule image_eqI)
  qed
qed

lemma isoWeek_eq:
  assumes "validDate d"
  shows "eachDayOfInterval (startOfWeek d 1) (endOfWeek d 1) = isoWeek d"
proof -
  have day: "0 \<le> getDay d" "getDay d < 7" by (simp_all add: getDay_def)
  have "(if getDay d < 1 then 7 else 0) + getDay d - 1 = (getDay d + 6) mod 7"
    using day by (cases "getDay d < 1") (simp_all, presburger+)
  then have "startOfWeek d 1 = addDays d (- ((getDay d + 6) mod 7))"
    by (simp only: startOfWeek_def Let_def)
  then show ?thesis
    using week_days(1)[OF assms] by (simp add: isoWeek_def Let_def addDays_def)
qed

lemma isoWeek_shape:
  assumes "validDate d"
  shows "map getDay (isoWeek d) = [1, 2, 3, 4, 5, 6, 0]"
    and "d \<in> set (isoWeek d)"
    and "map dayNumber (isoWeek d) = map (\<lambda>i. dayNumber (hd (isoWeek d)) + int i) [0..<7]"
proof -
  let ?m = "startOfWeek d 1"
  have w: "isoWeek d = map (\<lambda>i. (nextDay ^^ i) ?m) [0..<7]"
    using isoWeek_eq[OF assms] week_days(1)[OF assms] by simp
  have v: "validDate ?m" by (rule week_days(2)[OF assms])
  have dn: "dayNumber ((nextDay ^^ i) ?m) = dayNumber ?m + int i" for i
    by (rule nextDay_funpow(2)[OF v])
  have upt: "[0..<7] = [0, 1, 2, 3, 4, 5, 6::nat]" by (simp add: upt_rec)
  have hd: "hd (isoWeek d) = ?m" unfolding w upt by simp
  show "map dayNumber (isoWeek d) = map (\<lambda>i. dayNumber (hd (isoWeek d)) + int i) [0..<7]"
    unfolding hd unfolding w by (simp add: dn comp_def)
  have "dayNumber ?m mod 7 = 1" using week_days(3)[OF assms] by (simp add: getDay_def)
  then have g: "getDay ((nextDay ^^ i) ?m) = (1 + int i) mod 7" for i
    unfolding getDay_def dn by presburger
  show "map getDay (isoWeek d) = [1, 2, 3, 4, 5, 6, 0]"
    unfolding w upt using g[of 0] g[of 1] g[of 2] g[of 3] g[of 4] g[of 5] g[of 6] by simp
  have n: "nat ((getDay d + 6) mod 7) < 7" by (simp add: getDay_def nat_less_iff)
  have "d = (nextDay ^^ nat ((getDay d + 6) mod 7)) ?m" by (rule week_days(4)[OF assms])
  moreover have "nat ((getDay d + 6) mod 7) \<in> set [0..<7]" using n by simp
  ultimately show "d \<in> set (isoWeek d)" unfolding w set_map by (rule image_eqI)
qed

lemma day_total_present:
  "fst (getPeriodTotal api now d Day w) =
     (case api d of
        None \<Rightarrow> Inl ConnectivityError
      | Some snap \<Rightarrow>
          (case firstValue snap of
             None \<Rightarrow> Inr 0
           | Some p \<Rightarrow>
               (case devices p of
                  None \<Rightarrow> Inl TypeError
                | Some ds \<Rightarrow>
                    (case firstValue ds of
                       None \<Rightarrow> Inr 0
                     | Some dev \<Rightarrow>
                         (case historyLast dev of
                            None \<Rightarrow> Inr 0
                          | Some h \<Rightarrow> Inr (case eacToday h of None \<Rightarrow> 0 | Some v \<Rightarrow> v))))))"
  by (simp add: period_day dayFigure_def firstDevice_def split: option.splits)

text \<open>
  C6. The day total of a snapshot whose plant has no \<open>devices\<close> collection is no number: the
  call ends with the TypeError of \<open>Object.keys(undefined)\<close>. (\<open>day_total_present\<close> above gives
  the total in every case: 0 for a missing plant, device, \<open>historyLast\<close> or \<open>eacToday\<close>, the
  \<open>eacToday\<close> figure otherwise.)
\<close>

theorem day_total_without_devices:
  "fst (getPeriodTotal noDevices now d Day w) = Inl TypeError"
  by (simp add: period_day noDevices_def dayFigure_def firstValue_def firstDevice_def)

text \<open>
  C2. For a day \<open>d\<close> and a vendor whose answer for each day of the period gives the day total
  \<open>f day\<close>: the month total of \<open>d\<close> is the sum of \<open>f\<close> over the days of \<open>calendarMonth d\<close>, which
  are, each once, the days of the year and month of \<open>d\<close>; the week total is the sum over
  \<open>isoWeek d\<close>, seven consecutive days from a Monday to a Sunday, \<open>d\<close> among them.
\<close>

theorem period_total_is_sum_of_days:
  assumes "validDate d"
  shows
    "((\<forall>day \<in> set (calendarMonth d). fst (getPeriodTotal api now day Day w) = Inr (f day)) \<longrightarrow>
        fst (getPeriodTotal api now d Month w) = Inr (\<Sum>day\<leftarrow>calendarMonth d. f day))
     \<and> distinct (calendarMonth d)
     \<and> set (calendarMonth d) = {x. validDate x \<and> year x = year d \<and> month x = month d}
     \<and> ((\<forall>day \<in> set (isoWeek d). fst (getPeriodTotal api now day Day w) = Inr (f day)) \<longrightarrow>
        fst (getPeriodTotal api now d Week w) = Inr (\<Sum>day\<leftarrow>isoWeek d. f day))
     \<and> map getDay (isoWeek d) = [1, 2, 3, 4, 5, 6, 0]
     \<and> map dayNumber (isoWeek d) = map (\<lambda>i. dayNumber (hd (isoWeek d)) + int i) [0..<7]
     \<and> d \<in> set (isoWeek d)"
proof -
  have m: "fst (getPeriodTotal api now d Month w) = Inr (\<Sum>day\<leftarrow>calendarMonth d. f day)"
    if "\<forall>day \<in> set (calendarMonth d). fst (getPeriodTotal api now day Day w) = Inr (f day)"
    using sum_of_days[OF that, of w] month_days[OF assms]
    by (simp add: getPeriodTotal_def calendarMonth_def)
  have k: "fst (getPeriodTotal api now d Week w) = Inr (\<Sum>day\<leftarrow>isoWeek d. f day)"
    if "\<forall>day \<in> set (isoWeek d). fst (getPeriodTotal api now day Day w) = Inr (f day)"
    using sum_of_days[OF that, of w] isoWeek_eq[OF assms]
    by (simp add: getPeriodTotal_def)
  from m k calendarMonth_set[OF assms] isoWeek_shape[OF assms] show ?thesis by blast
qed

theorem period_total_is_sum_of_days_witness:
  "validDate leapDay
   \<and> fst (getPeriodTotal (energyOn 12) (noon 0) leapDay Month (initialWorld None)) = Inr 348
   \<and> fst (getPeriodTotal (energyOn 12) (noon 0) leapDay Week (initialWorld None)) = Inr 84"
proof -
  have v: "validDate leapDay"
    by (simp add: leapDay_def validDate_def getDaysInMonth_def isLeapYear_def)
  have d: "fst (getPeriodTotal (energyOn 12) (noon 0) day Day (initialWorld None)) = Inr 12" for day
    by (simp add: period_day energyOn_def dayFigure_def firstValue_def firstDevice_def)
  have n: "length (calendarMonth leapDay) = 29" "length (isoWeek leapDay) = 7"
    by (simp_all add: calendarMonth_def isoWeek_def leapDay_def getDaysInMonth_def isLeapYear_def
        Let_def)
  from period_total_is_sum_of_days[OF v, of "energyOn 12" "noon 0" "initialWorld None" "\<lambda>day. 12"] d v n
  show ?thesis by (simp add: sum_list_triv)
qed

end
